theory Spec2Isabelle
  imports Main "HOL-Library.Word"
begin

section \<open>The catalog builder of \<^verbatim>\<open>src/scripts/combine.ts\<close>\<close>

text \<open>
  The script reads one metadata record per mod, resolves the mod's package (from the
  hash cache, from a local file or by download), inspects the package for a cover image
  and appends the normalised record to the catalog of its game version.

  The embedding is a state-passing one. The script's two file-scope bindings
  (\<^verbatim>\<open>hashes\<close>, \<^verbatim>\<open>allMods\<close>) and the file system live in a record \<open>world\<close>;
  everything the script imports but does not define (paths, helper functions, the
  network, the archive and image libraries) is a field of a record \<open>env\<close>.
  A \<^verbatim>\<open>throw\<close> and a call of \<^verbatim>\<open>exitWithError\<close> are the left summand of the result,
  together with the state in which the run ended.

  Strings are lists of 8-bit characters, read as the UTF-16 code units below 256 of a
  JavaScript string. A value that is \<^verbatim>\<open>null\<close> or \<^verbatim>\<open>undefined\<close> in the script is
  \<open>None\<close>; the fields of a mod record and of a manifest are strings or absent, as the
  type \<^verbatim>\<open>Mod\<close> declares them.
\<close>

subsection \<open>JavaScript values and strings\<close>

type_synonym bytes = "8 word list"

text \<open>Truthiness of a value of type \<^verbatim>\<open>string | null | undefined\<close>.\<close>

fun truthy :: "string option \<Rightarrow> bool" where
  "truthy None = False"
| "truthy (Some s) = (s \<noteq> [])"

text \<open>\<^verbatim>\<open>a || b\<close> on such values.\<close>

definition js_or :: "string option \<Rightarrow> string option \<Rightarrow> string option" where
  "js_or a b = (if truthy a then a else b)"

text \<open>
  The code units below 256 that \<^verbatim>\<open>String.prototype.trim\<close> removes: tab, line feed,
  vertical tab, form feed, carriage return, space and the no-break space.
\<close>

definition isWhitespace :: "char \<Rightarrow> bool" where
  "isWhitespace c = (c \<in> set [CHR 0x09, CHR 0x0A, CHR 0x0B, CHR 0x0C, CHR 0x0D, CHR 0x20, CHR 0xA0])"

definition trim :: "string \<Rightarrow> string" where
  "trim s = rev (dropWhile isWhitespace (rev (dropWhile isWhitespace s)))"

text \<open>
  Modelled from the spec: \<^verbatim>\<open>isNullOrWhitespace\<close> (\<^verbatim>\<open>src/shared/isNullOrWhitespace.ts\<close>)
  is not among the sources. The spec calls the fields it rejects ``blank-or-missing'' and
  requires the accepted ones to be ``non-blank'': the value is absent, or nothing is left
  of it after trimming.
\<close>

definition isNullOrWhitespace :: "string option \<Rightarrow> bool" where
  "isNullOrWhitespace v = (case v of None \<Rightarrow> True | Some s \<Rightarrow> trim s = [])"

text \<open>\<^verbatim>\<open>s.startsWith(p)\<close>.\<close>

definition startsWith :: "string \<Rightarrow> string \<Rightarrow> bool" where
  "startsWith s p = (take (length p) s = p)"

text \<open>
  \<^verbatim>\<open>path.join\<close> of Node on POSIX, for two arguments: the non-empty arguments are joined
  by one separator and the result is normalised. Normalisation splits the path at the
  separators, drops the empty and the \<^verbatim>\<open>.\<close> segments, lets a \<^verbatim>\<open>..\<close> segment remove
  the segment before it (or keeps it, in a relative path with nothing left to remove),
  and keeps a leading and a trailing separator.
\<close>

fun splitPath :: "string \<Rightarrow> string list" where
  "splitPath [] = [[]]"
| "splitPath (c # cs) =
     (if c = CHR ''/'' then [] # splitPath cs
      else (case splitPath cs of [] \<Rightarrow> [[c]] | s # ss \<Rightarrow> (c # s) # ss))"

fun normalizeSegments :: "bool \<Rightarrow> string list \<Rightarrow> string list \<Rightarrow> string list" where
  "normalizeSegments allowAboveRoot [] res = res"
| "normalizeSegments allowAboveRoot (seg # segs) res =
     normalizeSegments allowAboveRoot segs
       (if seg = [] \<or> seg = ''.'' then res
        else if seg = ''..'' then
          (if res \<noteq> [] \<and> last res \<noteq> ''..'' then butlast res
           else if allowAboveRoot then res @ [''..''] else res)
        else res @ [seg])"

fun joinSegments :: "string list \<Rightarrow> string" where
  "joinSegments [] = []"
| "joinSegments [s] = s"
| "joinSegments (s # t # ss) = s @ ''/'' @ joinSegments (t # ss)"

definition path_normalize :: "string \<Rightarrow> string" where
  "path_normalize p =
     (if p = [] then ''.''
      else
        (let isAbsolute = (hd p = CHR ''/'');
             trailingSeparator = (last p = CHR ''/'');
             res = joinSegments (normalizeSegments (\<not> isAbsolute) (splitPath p) [])
         in if res = [] then
              (if isAbsolute then ''/'' else if trailingSeparator then ''./'' else ''.'')
            else (if isAbsolute then ''/'' else []) @ res
                 @ (if trailingSeparator then ''/'' else [])))"

definition path_join :: "string \<Rightarrow> string \<Rightarrow> string" where
  "path_join a b =
     (if a = [] \<and> b = [] then ''.''
      else path_normalize (if a = [] then b else if b = [] then a else a @ ''/'' @ b))"

text \<open>
  \<^verbatim>\<open>path.basename\<close> of Node on POSIX, with one argument: what stands between the last
  separator and the end, trailing separators aside.
\<close>

definition path_basename :: "string \<Rightarrow> string" where
  "path_basename p =
     rev (takeWhile (\<lambda>c. c \<noteq> CHR ''/'') (dropWhile (\<lambda>c. c = CHR ''/'') (rev p)))"

subsection \<open>Data\<close>

text \<open>
  A mod record (\<^verbatim>\<open>Mod\<close>, \<^verbatim>\<open>Partial<Mod>\<close>) maps a field name to its value;
  \<open>m ''download''\<close> is \<^verbatim>\<open>mod.download\<close>.
\<close>

type_synonym Mod = "string \<rightharpoonup> string"

text \<open>\<^verbatim>\<open>QmodResult\<close>, the outcome of processing one mod.\<close>

record QmodResult =
  messages :: "string list"
  errors :: "string list"
  warnings :: "string list"
  hash :: "string option"

text \<open>
  An entry of an opened archive (\<^verbatim>\<open>JSZip.JSZipObject\<close>): its name and what
  \<^verbatim>\<open>async(...)\<close> yields, \<open>None\<close> when reading the entry fails. An archive maps the names
  of its file entries to them (\<^verbatim>\<open>zip.file(name)\<close>).
\<close>

datatype JSZipObject = JSZipObject (entryName: string) (entryData: "bytes option")

type_synonym archive = "string \<rightharpoonup> JSZipObject"

text \<open>The two fields the script reads from a parsed manifest.\<close>

record manifest =
  coverImageFilename :: "string option"
  coverImage :: "string option"

text \<open>What \<^verbatim>\<open>fetchAsBuffer\<close> can do: throw, return nothing, or return a buffer.\<close>

datatype fetched = FetchThrows | FetchNull | FetchData bytes

text \<open>The calls that leave the process, in the order they are made.\<close>

datatype effect =
    CheckUrl string
  | DownloadFile string string
  | LoadArchive string
  | Unlink string
  | FetchAsBuffer string
  | SharpToFile string

text \<open>
  A \<^verbatim>\<open>throw new Error(msg)\<close> that nothing catches, and \<^verbatim>\<open>exitWithError(msg)\<close> with the
  exit status. A run that ends in one of them is the pair of it and the state at that
  moment (\<open>failure \<times> world\<close>), so that what was done before the end is not lost.
\<close>

datatype failure = Thrown string | Exit nat string

text \<open>
  The mutable state: the hash cache \<^verbatim>\<open>hashes\<close> (at the start of a run, what
  \<^verbatim>\<open>getQmodHashes\<close> has loaded), the catalog \<^verbatim>\<open>allMods\<close>, the files on disk (path to
  content), the content last written to the hashes file, and the calls made so far.
\<close>

record world =
  hashes :: "string \<rightharpoonup> string"
  allMods :: "string \<rightharpoonup> Mod list"
  files :: "string \<rightharpoonup> bytes"
  saved :: "string \<rightharpoonup> string"
  trace :: "effect list"

text \<open>
  What the script imports. The constants and helpers of the repository that are not among
  the sources (\<^verbatim>\<open>modKeys\<close>, \<^verbatim>\<open>validModLoaders\<close>, the paths, \<^verbatim>\<open>getFilename\<close>,
  \<^verbatim>\<open>computeBufferSha1\<close>) are parameters. The network and the libraries are parameters
  too; those whose answer can change during a run take the number of calls made so far as
  their first argument.

  \<^item> \<open>downloadFile t url path\<close> returns the hash or \<open>None\<close> (\<^verbatim>\<open>null\<close>), and the
    content it leaves at \<open>path\<close>, if any;
  \<^item> \<open>loadAsync b\<close> is \<^verbatim>\<open>JSZip.loadAsync\<close>, \<open>None\<close> when it throws;
  \<^item> \<open>parseInfo b\<close> is \<^verbatim>\<open>JSON.parse\<close> of the manifest text followed by the two field
    reads, \<open>None\<close> when one of them throws;
  \<^item> \<open>sharp t b\<close> is the \<^verbatim>\<open>sharp(...)...toFile\<close> chain: the error message when it
    throws, otherwise the bytes it writes.
\<close>

record env =
  args :: "string list"
  modKeys :: "string list"
  validModLoaders :: "string list"
  coversPath :: string
  qmodsPath :: string
  repoDir :: string
  modsPath :: string
  getFilename :: "string \<Rightarrow> string \<Rightarrow> string \<Rightarrow> string \<Rightarrow> string \<Rightarrow> string"
  computeBufferSha1 :: "bytes \<Rightarrow> string"
  checkUrl :: "nat \<Rightarrow> string \<Rightarrow> bool"
  downloadFile :: "nat \<Rightarrow> string \<Rightarrow> string \<Rightarrow> string option \<times> bytes option"
  fetchAsBuffer :: "nat \<Rightarrow> string \<Rightarrow> fetched"
  loadAsync :: "bytes \<Rightarrow> archive option"
  parseInfo :: "bytes \<Rightarrow> manifest option"
  sharp :: "nat \<Rightarrow> bytes \<Rightarrow> string + bytes"

text \<open>
  Modelled from the spec: \<^verbatim>\<open>exitWithError\<close> (\<^verbatim>\<open>src/scripts/shared/exitWithError.ts\<close>)
  is not among the sources. By the spec a fatal validation failure ``terminates the entire
  run immediately with a non-zero status and a descriptive message''.
\<close>

definition exitWithError :: "string \<Rightarrow> world \<Rightarrow> failure \<times> world + 'a" where
  "exitWithError msg st = Inl (Exit 1 msg, st)"

subsection \<open>Lines 33--43: the public url base\<close>

fun urlBase :: "string list \<Rightarrow> string" where
  "urlBase [] = ''.''"
| "urlBase (arg # rest) =
     (if startsWith arg ''--baseHref='' then drop (length ''--baseHref='') arg
      else urlBase rest)"

subsection \<open>Lines 51--216: \<^verbatim>\<open>processQmod\<close>\<close>

definition output0 :: QmodResult where
  "output0 = \<lparr>messages = [], errors = [], warnings = [], hash = None\<rparr>"

definition existsSync :: "world \<Rightarrow> string \<Rightarrow> bool" where
  "existsSync st p = (files st p \<noteq> None)"

text \<open>\<^verbatim>\<open>path.join(coversPath, `${qmodHash}.png`)\<close>, lines 64 and 120, for a hash that is set.\<close>

definition coverFilename :: "env \<Rightarrow> string \<Rightarrow> string" where
  "coverFilename e h = path_join (coversPath e) (h @ ''.png'')"

text \<open>\<^verbatim>\<open>`${urlBase}/covers/${path.basename(coverFilename)}`\<close>, lines 86 and 208.\<close>

definition coverUrl :: "env \<Rightarrow> string \<Rightarrow> string" where
  "coverUrl e cf = urlBase (args e) @ ''/covers/'' @ path_basename cf"

text \<open>
  Lines 63 and 70--79: the cached hash of the download url, dropped together with its
  cache entry when \<^verbatim>\<open>--recheckUrls\<close> is given and the url does not answer.
\<close>

definition lookupHash :: "env \<Rightarrow> string \<Rightarrow> world \<Rightarrow> string option \<times> world" where
  "lookupHash e d st =
     (let qmodHash = hashes st d in
      if ''--recheckUrls'' \<in> set (args e) \<and> qmodHash \<noteq> None then
        (let st1 = st\<lparr>trace := trace st @ [CheckUrl d]\<rparr> in
         if \<not> checkUrl e (length (trace st)) d
         then (None, st1\<lparr>hashes := (hashes st1)(d := None)\<rparr>)
         else (qmodHash, st1))
      else (qmodHash, st))"

text \<open>
  Lines 114--118: the hash of the local file when there is one, otherwise the download.
\<close>

definition fetchPackage :: "env \<Rightarrow> string \<Rightarrow> string \<Rightarrow> world \<Rightarrow> string option \<times> world" where
  "fetchPackage e d qmodPath st =
     (case files st qmodPath of
        Some b \<Rightarrow> (Some (computeBufferSha1 e b), st)
      | None \<Rightarrow>
          (case downloadFile e (length (trace st)) d qmodPath of
             (h, written) \<Rightarrow>
               (h, st\<lparr>files := (case written of None \<Rightarrow> files st
                                  | Some b \<Rightarrow> (files st)(qmodPath \<mapsto> b)),
                      trace := trace st @ [DownloadFile d qmodPath]\<rparr>)))"

text \<open>Line 147: \<^verbatim>\<open>json.coverImageFilename || json.coverImage\<close>.\<close>

definition declaredCover :: "manifest \<Rightarrow> string option" where
  "declaredCover json = js_or (coverImageFilename json) (coverImage json)"

text \<open>
  Lines 149--163: the cover entry of the archive and the warning when the declared one is
  missing.
\<close>

definition findCover :: "env \<Rightarrow> string \<Rightarrow> archive \<Rightarrow> string option \<Rightarrow> JSZipObject option \<times> string list" where
  "findCover e qmodPath zp c =
     (if \<not> isNullOrWhitespace c \<and> c \<noteq> Some ''undefined'' then
        (case c of
           None \<Rightarrow> (None, [])
         | Some n \<Rightarrow>
             (case zp n of
                Some coverFile \<Rightarrow> (Some coverFile, [])
              | None \<Rightarrow>
                  (None, [''Cover file not found: '' @
                     path_join (drop (length (qmodsPath e) + 1) qmodPath) n])))
      else (None, []))"

text \<open>
  Lines 139--176: the \<^verbatim>\<open>try\<close> block. The left summand is the error pushed before
  \<^verbatim>\<open>return output\<close>; the right one is \<^verbatim>\<open>coverFile\<close> with the warnings pushed.
  Reading a file that is not there throws inside the block, as an unreadable archive does
  (\<^verbatim>\<open>processQmod\<close> only gets here when the file exists, line 132).
\<close>

definition inspectArchive ::
    "env \<Rightarrow> string \<Rightarrow> world \<Rightarrow> (string \<times> world) + (JSZipObject option \<times> string list \<times> world)" where
  "inspectArchive e qmodPath st =
     (let st1 = st\<lparr>trace := trace st @ [LoadArchive qmodPath]\<rparr> in
      case (case files st qmodPath of None \<Rightarrow> None | Some b \<Rightarrow> loadAsync e b) of
        None \<Rightarrow>
          Inl (''Reading archive'',
               st1\<lparr>files := (files st1)(qmodPath := None),
                   trace := trace st1 @ [Unlink qmodPath]\<rparr>)
      | Some zp \<Rightarrow>
          (case (case zp ''bmbfmod.json'' of Some f \<Rightarrow> Some f | None \<Rightarrow> zp ''mod.json'') of
             None \<Rightarrow> Inl (''No info json'', st1)
           | Some infoFile \<Rightarrow>
               (case (case entryData infoFile of None \<Rightarrow> None | Some txt \<Rightarrow> parseInfo e txt) of
                  None \<Rightarrow> Inl (''Processing '' @ entryName infoFile, st1)
                | Some json \<Rightarrow>
                    (case findCover e qmodPath zp (declaredCover json) of
                       (coverFile, warns) \<Rightarrow> Inr (coverFile, warns, st1)))))"

text \<open>
  Lines 178--188: the cover bytes, from the archive entry or else from the mod's cover url.
\<close>

definition fetchCover ::
    "env \<Rightarrow> JSZipObject option \<Rightarrow> Mod \<Rightarrow> QmodResult \<Rightarrow> world \<Rightarrow> bytes option \<times> QmodResult \<times> world" where
  "fetchCover e coverFile m out st =
     (case coverFile of
        Some f \<Rightarrow>
          (case entryData f of
             Some b \<Rightarrow> (Some b, out, st)
           | None \<Rightarrow> (None, out\<lparr>warnings := warnings out @ [''Error fetching cover buffer'']\<rparr>, st))
      | None \<Rightarrow>
          (if truthy (m ''cover'') then
             (let c = the (m ''cover'');
                  st1 = st\<lparr>trace := trace st @ [FetchAsBuffer c]\<rparr> in
              case fetchAsBuffer e (length (trace st)) c of
                FetchThrows \<Rightarrow>
                  (None, out\<lparr>warnings := warnings out @ [''Error fetching cover buffer'']\<rparr>, st1)
              | FetchNull \<Rightarrow> (None, out, st1)
              | FetchData b \<Rightarrow> (Some b, out, st1))
           else (None, out, st)))"

text \<open>
  Lines 191--212, for cover bytes that were obtained: write the normalised image unless
  the file is there already, and link it.
\<close>

definition linkCover ::
    "env \<Rightarrow> string \<Rightarrow> bytes \<Rightarrow> Mod \<Rightarrow> QmodResult \<Rightarrow> world \<Rightarrow> QmodResult \<times> Mod \<times> world" where
  "linkCover e cf coverBuffer m out st =
     (if \<not> existsSync st cf then
        (let st1 = st\<lparr>trace := trace st @ [SharpToFile cf]\<rparr> in
         case sharp e (length (trace st)) coverBuffer of
           Inl msg \<Rightarrow>
             (out\<lparr>warnings := warnings out @ [''Error processing cover file'', msg]\<rparr>, m, st1)
         | Inr png \<Rightarrow>
             (out, m(''cover'' \<mapsto> coverUrl e cf), st1\<lparr>files := (files st1)(cf \<mapsto> png)\<rparr>))
      else (out, m(''cover'' \<mapsto> coverUrl e cf), st))"

text \<open>Lines 178--215: both steps, and \<^verbatim>\<open>return output\<close>.\<close>

definition resolveCover ::
    "env \<Rightarrow> string \<Rightarrow> JSZipObject option \<Rightarrow> Mod \<Rightarrow> QmodResult \<Rightarrow> world \<Rightarrow> QmodResult \<times> Mod \<times> world" where
  "resolveCover e cf coverFile m out st =
     (case fetchCover e coverFile m out st of
        (None, out1, st1) \<Rightarrow> (out1, m, st1)
      | (Some coverBuffer, out1, st1) \<Rightarrow> linkCover e cf coverBuffer m out1 st1)"

text \<open>Lines 103--109: where the package of a mod is kept on disk.\<close>

definition qmodPathOf :: "env \<Rightarrow> Mod \<Rightarrow> string \<Rightarrow> string" where
  "qmodPathOf e m gameVersion =
     getFilename e (the (m ''id'')) (the (m ''version'')) gameVersion (qmodsPath e) ''qmod''"

text \<open>
  The function: the outcome, the mod record (whose \<^verbatim>\<open>cover\<close> it may reassign) and the
  state, or the uncaught \<^verbatim>\<open>throw\<close>. Directories are not part of the file system model, so
  the two \<^verbatim>\<open>mkdirSync\<close> calls have no effect here.
\<close>

definition processQmod ::
    "env \<Rightarrow> Mod \<Rightarrow> string \<Rightarrow> world \<Rightarrow> failure \<times> world + (QmodResult \<times> Mod \<times> world)" where
  "processQmod e m gameVersion st =
     (if ''--skipHashes'' \<in> set (args e) then Inr (output0, m, st)
      else if \<not> truthy (m ''download'') then Inl (Thrown ''Mod download not set.'', st)
      else
        (let d = the (m ''download'') in
         case lookupHash e d st of
           (Some h, st1) \<Rightarrow>
             Inr (output0\<lparr>hash := Some h\<rparr>,
                  (if existsSync st1 (coverFilename e h)
                   then m(''cover'' \<mapsto> coverUrl e (coverFilename e h)) else m),
                  st1)
         | (None, st1) \<Rightarrow>
             (if \<not> truthy (m ''id'') then Inl (Thrown ''Mod ID not set'', st1)
              else if \<not> truthy (m ''version'') then Inl (Thrown ''Mod version not set'', st1)
              else if \<not> truthy (m ''download'') then Inl (Thrown ''Mod download not set'', st1)
              else
                (let qmodPath = qmodPathOf e m gameVersion;
                     out1 = output0\<lparr>messages := [d]\<rparr> in
                 case fetchPackage e d qmodPath st1 of
                   (None, st2) \<Rightarrow> Inr (out1\<lparr>errors := [''Not found'']\<rparr>, m, st2)
                 | (Some h, st2) \<Rightarrow>
                     (let st3 = st2\<lparr>hashes := (hashes st2)(d \<mapsto> h)\<rparr>;
                          out2 = out1\<lparr>hash := Some h\<rparr> in
                      if \<not> existsSync st3 qmodPath
                      then Inr (out2\<lparr>errors := [''Local file not found'']\<rparr>, m, st3)
                      else
                        (case inspectArchive e qmodPath st3 of
                           Inl (err, st4) \<Rightarrow> Inr (out2\<lparr>errors := [err]\<rparr>, m, st4)
                         | Inr (coverFile, warns, st4) \<Rightarrow>
                             Inr (resolveCover e (coverFilename e h) coverFile m
                                    (out2\<lparr>warnings := warns\<rparr>) st4)))))))"

subsection \<open>Lines 226--323: the catalog loop\<close>

text \<open>
  Lines 280--286: \<^verbatim>\<open>uniformMod[key] = (mod[key] || "").trim()\<close>, and \<^verbatim>\<open>null\<close> for the
  empty string. A field that is \<^verbatim>\<open>null\<close> and a field that is not there are both \<open>None\<close>.
\<close>

definition uniformField :: "string option \<Rightarrow> string option" where
  "uniformField v =
     (let s = trim (case js_or v (Some []) of None \<Rightarrow> [] | Some x \<Rightarrow> x) in
      if s = [] then None else Some s)"

fun uniformLoop :: "string list \<Rightarrow> Mod \<Rightarrow> Mod \<Rightarrow> Mod" where
  "uniformLoop [] m u = u"
| "uniformLoop (key # keys) m u = uniformLoop keys m (u(key := uniformField (m key)))"

definition uniformMod :: "env \<Rightarrow> Mod \<Rightarrow> Mod" where
  "uniformMod e m = uniformLoop (modKeys e) m Map.empty"

text \<open>Lines 238--239 and 241--247: the two paths that line 250 compares.\<close>

definition shortModPath :: "env \<Rightarrow> string \<Rightarrow> string \<Rightarrow> string" where
  "shortModPath e version modFilename =
     drop (length (repoDir e) + 1) (path_join (path_join (modsPath e) version) modFilename)"

definition requiredFilename :: "env \<Rightarrow> string \<Rightarrow> Mod \<Rightarrow> string" where
  "requiredFilename e version m =
     getFilename e (case js_or (m ''id'') (Some []) of None \<Rightarrow> [] | Some x \<Rightarrow> x)
       (case js_or (m ''version'') (Some []) of None \<Rightarrow> [] | Some x \<Rightarrow> x)
       version (modsPath e) ''json''"

text \<open>Lines 259--268: the first required field that is not set.\<close>

fun requiredFields :: "string list \<Rightarrow> Mod \<Rightarrow> string option" where
  "requiredFields [] m = None"
| "requiredFields (field # rest) m =
     (if isNullOrWhitespace (m field) then Some (''Mod '' @ field @ '' not set'')
      else requiredFields rest m)"

text \<open>Lines 249--273: the message of the first check that fails, if one does.\<close>

definition validateMod :: "env \<Rightarrow> string \<Rightarrow> string \<Rightarrow> Mod \<Rightarrow> string option" where
  "validateMod e version modFilename m =
     (if shortModPath e version modFilename
           \<noteq> drop (length (repoDir e) + 1) (requiredFilename e version m)
      then Some (''Mod filename is not what it should be.  '' @ shortModPath e version modFilename
                 @ '' should be '' @ drop (length (repoDir e) + 1) (requiredFilename e version m))
      else
        (case requiredFields [''name'', ''id'', ''version'', ''download''] m of
           Some msg \<Rightarrow> Some msg
         | None \<Rightarrow>
             (case m ''modloader'' of
                None \<Rightarrow> Some ''Mod loader is invalid''
              | Some l \<Rightarrow>
                  if l \<notin> set (validModLoaders e) then Some ''Mod loader is invalid''
                  else None)))"

text \<open>The list \<^verbatim>\<open>mods\<close> of a game version (line 228).\<close>

definition modsOf :: "world \<Rightarrow> string \<Rightarrow> Mod list" where
  "modsOf st version = (case allMods st version of None \<Rightarrow> [] | Some ms \<Rightarrow> ms)"

text \<open>
  Lines 288--299 and 321: admit the normalised record with the cached hash, or drop the
  cache entry; then write the hashes file.
\<close>

definition admit :: "env \<Rightarrow> string \<Rightarrow> QmodResult \<Rightarrow> Mod \<Rightarrow> world \<Rightarrow> world" where
  "admit e version qmodResult u st =
     (let st1 =
        (if errors qmodResult = [] then
           (let u1 = (if truthy (u ''download'')
                      then u(''hash'' := hashes st (the (u ''download''))) else u)
            in st\<lparr>allMods := (allMods st)(version \<mapsto> modsOf st version @ [u1])\<rparr>)
         else
           (if truthy (u ''download'')
            then st\<lparr>hashes := (hashes st)(the (u ''download'') := None)\<rparr> else st))
      in st1\<lparr>saved := hashes st1\<rparr>)"

text \<open>Lines 237--322: the body of the inner loop, for one mod file.\<close>

definition processModFile ::
    "env \<Rightarrow> string \<Rightarrow> string \<times> Mod \<Rightarrow> world \<Rightarrow> failure \<times> world + world" where
  "processModFile e version f st =
     (case f of (modFilename, m) \<Rightarrow>
        (case validateMod e version modFilename m of
           Some msg \<Rightarrow> exitWithError msg st
         | None \<Rightarrow>
             (case processQmod e m version st of
                Inl x \<Rightarrow> Inl x
              | Inr (qmodResult, m1, st1) \<Rightarrow>
                  Inr (admit e version qmodResult (uniformMod e m1) st1))))"

text \<open>Lines 237--322: the inner loop; a failure ends it.\<close>

fun processMods ::
    "env \<Rightarrow> string \<Rightarrow> (string \<times> Mod) list \<Rightarrow> world \<Rightarrow> failure \<times> world + world" where
  "processMods e version [] st = Inr st"
| "processMods e version (f # fs) st =
     (case processModFile e version f st of
        Inl x \<Rightarrow> Inl x
      | Inr st1 \<Rightarrow> processMods e version fs st1)"

text \<open>
  Lines 226--323: the outer loop over the game versions, each with the mod files found in
  its directory (name and parsed content, in the order of the directory listing).
\<close>

fun combine ::
    "env \<Rightarrow> (string \<times> (string \<times> Mod) list) list \<Rightarrow> world \<Rightarrow> failure \<times> world + world" where
  "combine e [] st = Inr st"
| "combine e ((version, fs) # rest) st =
     (case processMods e version fs (st\<lparr>allMods := (allMods st)(version \<mapsto> modsOf st version)\<rparr>) of
        Inl x \<Rightarrow> Inl x
      | Inr st1 \<Rightarrow> combine e rest st1)"

subsection \<open>Definitions that follow the spec\<close>

text \<open>
  The defects the spec calls fatal, in its words: a storage path that does not match the
  canonical path derived from the mod's own id, version and game version; a name, id,
  version or download that is blank or missing; a modloader outside the accepted set.
  It is compared with \<open>validateMod\<close>, which follows the code.
\<close>

definition fatalDefect :: "env \<Rightarrow> string \<Rightarrow> string \<Rightarrow> Mod \<Rightarrow> bool" where
  "fatalDefect e version modFilename m =
     (shortModPath e version modFilename
        \<noteq> drop (length (repoDir e) + 1) (requiredFilename e version m)
      \<or> isNullOrWhitespace (m ''name'') \<or> isNullOrWhitespace (m ''id'')
      \<or> isNullOrWhitespace (m ''version'') \<or> isNullOrWhitespace (m ''download'')
      \<or> (case m ''modloader'' of None \<Rightarrow> True | Some l \<Rightarrow> l \<notin> set (validModLoaders e)))"

text \<open>
  The declared cover filename as the spec words it: of the two accepted field names, in
  order, the first non-blank one wins. It is compared with \<open>declaredCover\<close>, which
  follows line 147.
\<close>

definition spec_declaredCover :: "manifest \<Rightarrow> string option" where
  "spec_declaredCover json =
     (if \<not> isNullOrWhitespace (coverImageFilename json) then coverImageFilename json
      else if \<not> isNullOrWhitespace (coverImage json) then coverImage json
      else None)"

subsection \<open>The rest of a run, and what is observed of a run\<close>

text \<open>
  The download urls of a list of mod files as they are written, and the keys under which
  processing those files can touch the hash cache: each url as written and trimmed. The
  same for a list of game versions with their mod files.
\<close>

definition downloadsOf :: "(string \<times> Mod) list \<Rightarrow> string option list" where
  "downloadsOf fs = map (\<lambda>f. snd f ''download'') fs"


definition downloadsOfAll :: "(string \<times> (string \<times> Mod) list) list \<Rightarrow> string option list" where
  "downloadsOfAll vs = concat (map (\<lambda>x. downloadsOf (snd x)) vs)"


text \<open>
  What is observed of a run, or of a loop body, that has completed: an entry of the hash
  cache, and one field of each record of a game version's catalog list, in order. A run
  that was terminated shows no entry and no record.
\<close>

definition cacheAfter :: "failure \<times> world + world \<Rightarrow> string \<Rightarrow> string option" where
  "cacheAfter r k = (case r of Inl x \<Rightarrow> None | Inr st \<Rightarrow> hashes st k)"

definition catalogAfter :: "failure \<times> world + world \<Rightarrow> string \<Rightarrow> string \<Rightarrow> string option list" where
  "catalogAfter r version field =
     (case r of Inl x \<Rightarrow> [] | Inr st \<Rightarrow> map (\<lambda>m. m field) (modsOf st version))"

text \<open>The errors and the warnings of the outcome of \<^verbatim>\<open>processQmod\<close>, when it returns one.\<close>

definition errorsOf :: "failure \<times> world + (QmodResult \<times> Mod \<times> world) \<Rightarrow> string list option" where
  "errorsOf r = (case r of Inl x \<Rightarrow> None | Inr (res, m1, st) \<Rightarrow> Some (errors res))"

text \<open>
  The calls made up to the point where \<^verbatim>\<open>processQmod\<close>, or a loop, has returned or has
  ended the run.
\<close>

definition callsOf :: "failure \<times> world + (QmodResult \<times> Mod \<times> world) \<Rightarrow> effect list" where
  "callsOf r = (case r of Inl (x, st) \<Rightarrow> trace st | Inr (res, m1, st) \<Rightarrow> trace st)"

definition callsAfter :: "failure \<times> world + world \<Rightarrow> effect list" where
  "callsAfter r = (case r of Inl (x, st) \<Rightarrow> trace st | Inr st \<Rightarrow> trace st)"

definition warningsOf :: "failure \<times> world + (QmodResult \<times> Mod \<times> world) \<Rightarrow> string list option" where
  "warningsOf r = (case r of Inl x \<Rightarrow> None | Inr (res, m1, st) \<Rightarrow> Some (warnings res))"

subsection \<open>Example inputs\<close>

text \<open>
  A naming scheme in the place of \<^verbatim>\<open>getFilename\<close>, an environment in which no
  download succeeds and nothing opens as an archive, a well-formed mod record and an
  empty initial state. The theorems are applied to them, and to variations of them,
  below.
\<close>

definition ex_getFilename :: "string \<Rightarrow> string \<Rightarrow> string \<Rightarrow> string \<Rightarrow> string \<Rightarrow> string" where
  "ex_getFilename i ver gameVersion base ext =
     base @ ''/'' @ gameVersion @ ''/'' @ i @ ''-'' @ ver @ ''.'' @ ext"

definition ex_env :: env where
  "ex_env = \<lparr>args = [],
     modKeys = [''name'', ''description'', ''id'', ''version'', ''author'', ''modloader'',
                ''download'', ''source'', ''cover'', ''website'', ''hash''],
     validModLoaders = [''QuestLoader'', ''Scotland2''],
     coversPath = ''/r/covers'', qmodsPath = ''/r/qmods'', repoDir = ''/r'', modsPath = ''/r/mods'',
     getFilename = ex_getFilename,
     computeBufferSha1 = (\<lambda>b. ''abc123''),
     checkUrl = (\<lambda>t u. True),
     downloadFile = (\<lambda>t u p. (None, None)),
     fetchAsBuffer = (\<lambda>t u. FetchNull),
     loadAsync = (\<lambda>b. None),
     parseInfo = (\<lambda>b. None),
     sharp = (\<lambda>t b. Inl ''bad image'')\<rparr>"

definition ex_mod :: Mod where
  "ex_mod = [''name'' \<mapsto> '' Foo '', ''id'' \<mapsto> ''foo'', ''version'' \<mapsto> ''1.0'',
             ''download'' \<mapsto> ''u'', ''modloader'' \<mapsto> ''QuestLoader'', ''author'' \<mapsto> []]"

definition ex_world :: world where
  "ex_world = \<lparr>hashes = Map.empty, allMods = Map.empty, files = Map.empty, saved = Map.empty,
                trace = []\<rparr>"

text \<open>The state of a later run: the url is cached and the cover of its hash is on disk.\<close>

definition ex_world_cached :: world where
  "ex_world_cached =
     ex_world\<lparr>hashes := [''u'' \<mapsto> ''abc123''], files := [''/r/covers/abc123.png'' \<mapsto> [1]]\<rparr>"

text \<open>The environment of a run with \<^verbatim>\<open>--skipHashes\<close>.\<close>

definition ex_env_skip :: env where
  "ex_env_skip = ex_env\<lparr>args := [''--skipHashes'']\<rparr>"

text \<open>A mod record whose name is blank.\<close>

definition ex_mod_unnamed :: Mod where
  "ex_mod_unnamed = ex_mod(''name'' \<mapsto> ''  '')"

text \<open>
  The local path of the package of \<open>ex_mod\<close>, an archive without a manifest, a
  download that cannot be opened as an archive and one that opens as that archive, and
  the state after the download.
\<close>

definition ex_qmod :: string where
  "ex_qmod = ''/r/qmods/1.0/foo-1.0.qmod''"

definition ex_zip_empty :: archive where
  "ex_zip_empty = [''readme.txt'' \<mapsto> JSZipObject ''readme.txt'' (Some [7])]"

definition ex_env_corrupt :: env where
  "ex_env_corrupt = ex_env\<lparr>downloadFile := (\<lambda>t u p. (Some ''abc123'', Some [0]))\<rparr>"

definition ex_env_nomanifest :: env where
  "ex_env_nomanifest = ex_env_corrupt\<lparr>loadAsync := (\<lambda>b. Some ex_zip_empty)\<rparr>"

definition ex_world_fetched :: world where
  "ex_world_fetched =
     ex_world\<lparr>files := [ex_qmod \<mapsto> [0]], trace := [DownloadFile ''u'' ex_qmod]\<rparr>"

text \<open>
  A second and a third mod: \<open>bar\<close> shares the download url of \<open>foo\<close>, \<open>baz\<close> has
  a url of its own. And \<open>foo\<close> with a blank in front of its url, and \<open>bar\<close> with one
  after it.
\<close>

definition ex_mod_bar :: Mod where
  "ex_mod_bar = ex_mod(''id'' \<mapsto> ''bar'', ''name'' \<mapsto> ''Bar'')"

definition ex_mod_baz :: Mod where
  "ex_mod_baz = ex_mod(''id'' \<mapsto> ''baz'', ''name'' \<mapsto> ''Baz'', ''download'' \<mapsto> ''w'')"

definition ex_mod_spaced :: Mod where
  "ex_mod_spaced = ex_mod(''download'' \<mapsto> '' u'')"


text \<open>
  An archive with a manifest that declares no cover, and environments in which every
  download succeeds with such an archive, in which only the first call of the run does,
  and in which every call but the first does.
\<close>

definition ex_zip_manifest :: archive where
  "ex_zip_manifest = [''mod.json'' \<mapsto> JSZipObject ''mod.json'' (Some [1])]"

definition ex_env_good :: env where
  "ex_env_good =
     ex_env\<lparr>downloadFile := (\<lambda>t u p. (Some ''abc123'', Some [0])),
            loadAsync := (\<lambda>b. if b = [7] then Some ex_zip_empty else Some ex_zip_manifest),
            parseInfo := (\<lambda>b. Some \<lparr>coverImageFilename = None, coverImage = None\<rparr>)\<rparr>"


definition ex_env_flaky :: env where
  "ex_env_flaky =
     ex_env_good\<lparr>downloadFile :=
       (\<lambda>t u p. if t = 0 then (None, None) else (Some ''abc123'', Some [0]))\<rparr>"

text \<open>A state in which a stale package of \<open>foo\<close> is on disk.\<close>

definition ex_world_stale :: world where
  "ex_world_stale = ex_world\<lparr>files := [ex_qmod \<mapsto> [7]]\<rparr>"

text \<open>Runs: the game versions with their mod files.\<close>

definition ex_run_foo :: "(string \<times> (string \<times> Mod) list) list" where
  "ex_run_foo = [(''1.0'', [(''foo-1.0.json'', ex_mod)])]"

definition ex_run_spaced :: "(string \<times> (string \<times> Mod) list) list" where
  "ex_run_spaced = [(''1.0'', [(''foo-1.0.json'', ex_mod_spaced)])]"

definition ex_run_foo_bar :: "(string \<times> (string \<times> Mod) list) list" where
  "ex_run_foo_bar = [(''1.0'', [(''foo-1.0.json'', ex_mod), (''bar-1.0.json'', ex_mod_bar)])]"


definition ex_rest_baz :: "(string \<times> Mod) list" where
  "ex_rest_baz = [(''baz-1.0.json'', ex_mod_baz)]"

definition ex_later_baz :: "(string \<times> (string \<times> Mod) list) list" where
  "ex_later_baz = [(''1.1'', [(''baz-1.0.json'', ex_mod_baz)])]"

text \<open>The state in which the first mod file of game version \<open>1.0\<close> is processed.\<close>

definition ex_world_init :: world where
  "ex_world_init = ex_world\<lparr>allMods := [''1.0'' \<mapsto> []]\<rparr>"

definition ex_world_stale_init :: world where
  "ex_world_stale_init = ex_world_stale\<lparr>allMods := [''1.0'' \<mapsto> []]\<rparr>"

text \<open>
  Manifests and an archive with a cover: one manifest names a cover, as
  \<open>./cover.png\<close>, for the archive without a cover above,
  one has a blank first field and the cover's name in the second, one has only the
  second field. In these environments the image library succeeds.
\<close>

definition ex_zip_cover :: archive where
  "ex_zip_cover = [''mod.json'' \<mapsto> JSZipObject ''mod.json'' (Some [1]),
                   ''cover.png'' \<mapsto> JSZipObject ''cover.png'' (Some [9])]"

definition ex_manifest_blank :: manifest where
  "ex_manifest_blank = \<lparr>coverImageFilename = Some ''  '', coverImage = Some ''cover.png''\<rparr>"

definition ex_manifest_second :: manifest where
  "ex_manifest_second = \<lparr>coverImageFilename = None, coverImage = Some ''cover.png''\<rparr>"

definition ex_env_missing :: env where
  "ex_env_missing =
     ex_env_good\<lparr>parseInfo :=
       (\<lambda>b. Some \<lparr>coverImageFilename = Some ''./cover.png'', coverImage = None\<rparr>)\<rparr>"

definition ex_env_blank :: env where
  "ex_env_blank =
     ex_env_good\<lparr>loadAsync := (\<lambda>b. Some ex_zip_cover),
                 parseInfo := (\<lambda>b. Some ex_manifest_blank),
                 sharp := (\<lambda>t b. Inr [5])\<rparr>"

definition ex_env_second :: env where
  "ex_env_second = ex_env_blank\<lparr>parseInfo := (\<lambda>b. Some ex_manifest_second)\<rparr>"

text \<open>
  The environment of a run with \<^verbatim>\<open>--recheckUrls\<close>, in which every url answers, and a
  state in which the url is cached but no cover is on disk.
\<close>

definition ex_env_recheck :: env where
  "ex_env_recheck = ex_env\<lparr>args := [''--recheckUrls'']\<rparr>"

definition ex_world_nocover :: world where
  "ex_world_nocover = ex_world\<lparr>hashes := [''u'' \<mapsto> ''abc123'']\<rparr>"

text \<open>The record of \<open>baz\<close> with a blank name.\<close>

definition ex_mod_baz_unnamed :: Mod where
  "ex_mod_baz_unnamed = ex_mod_baz(''name'' \<mapsto> ''  '')"

text \<open>A mod record with a modloader that is not accepted.\<close>

definition ex_mod_badloader :: Mod where
  "ex_mod_badloader = ex_mod(''modloader'' \<mapsto> ''Other'')"

text \<open>
  A mod record with a cover url of its own, and an environment in which downloads succeed
  with an archive whose manifest declares no cover, while fetching a cover url throws.
\<close>

definition ex_mod_cover :: Mod where
  "ex_mod_cover = ex_mod(''cover'' \<mapsto> ''c'')"

definition ex_env_fetchfail :: env where
  "ex_env_fetchfail = ex_env_good\<lparr>fetchAsBuffer := (\<lambda>t u. FetchThrows)\<rparr>"

section \<open>Properties\<close>

subsection \<open>Strings, paths and normalised fields\<close>

lemmas ex_defs = ex_env_def ex_mod_def ex_world_def ex_getFilename_def

lemmas str_defs = isNullOrWhitespace_def trim_def isWhitespace_def js_or_def

lemma trim_Nil: "trim [] = []"
  by (simp add: trim_def)

lemma nonblank_truthy: "\<not> isNullOrWhitespace v \<Longrightarrow> truthy v"
  by (cases v) (auto simp: isNullOrWhitespace_def trim_def)

lemma uniformField_None: "uniformField None = None"
  by (simp add: uniformField_def js_or_def trim_def)

lemma uniformField_Some: "uniformField (Some s) = (if trim s = [] then None else Some (trim s))"
  by (simp add: uniformField_def js_or_def trim_def Let_def)

lemma uniformLoop_apply:
  "uniformLoop keys m u k = (if k \<in> set keys then uniformField (m k) else u k)"
  by (induction keys arbitrary: u) auto

lemma uniformMod_apply:
  "uniformMod e m k = (if k \<in> set (modKeys e) then uniformField (m k) else None)"
  by (simp add: uniformMod_def uniformLoop_apply)

lemma splitPath_nonempty: "splitPath p \<noteq> []"
  by (induction p) (auto split: list.splits)

lemma splitPath_plain: "CHR ''/'' \<notin> set s \<Longrightarrow> splitPath s = [s]"
  by (induction s) auto

lemma splitPath_append: "splitPath (xs @ CHR ''/'' # ys) = splitPath xs @ splitPath ys"
  by (induction xs) (auto simp: splitPath_nonempty split: list.splits)

lemma normalizeSegments_snoc:
  "s \<noteq> [] \<Longrightarrow> s \<noteq> ''.'' \<Longrightarrow> s \<noteq> ''..'' \<Longrightarrow>
     normalizeSegments a (segs @ [s]) res = normalizeSegments a segs res @ [s]"
  by (induction segs arbitrary: res) auto

lemma joinSegments_snoc:
  "joinSegments (xs @ [s]) = (if xs = [] then s else joinSegments xs @ ''/'' @ s)"
  by (induction xs rule: joinSegments.induct) auto

lemma basename_plain:
  assumes "CHR ''/'' \<notin> set s" "s \<noteq> []"
  shows "path_basename (x @ ''/'' @ s) = s" and "path_basename s = s"
proof -
  from assms obtain c cs where r: "rev s = c # cs" and c: "c \<noteq> CHR ''/''"
    by (cases "rev s") (auto simp: rev_eq_Cons_iff)
  have d: "dropWhile (\<lambda>c. c = CHR ''/'') (rev s @ ys) = rev s @ ys" for ys
    by (simp add: r c)
  from assms(1)
  have "takeWhile (\<lambda>c. c \<noteq> CHR ''/'') (rev s @ CHR ''/'' # rev x) = rev s"
    by (subst takeWhile_append2) auto
  then show "path_basename (x @ ''/'' @ s) = s"
    using d[of "CHR ''/'' # rev x"] by (simp add: path_basename_def)
  have t: "takeWhile (\<lambda>c. c \<noteq> CHR ''/'') (rev s) = rev s"
    by (rule takeWhile_eq_all_conv[THEN iffD2]) (use assms(1) in auto)
  have d0: "dropWhile (\<lambda>c. c = CHR ''/'') (rev s) = rev s"
    using d[of "[]"] by simp
  show "path_basename s = s"
    unfolding path_basename_def d0 t by simp
qed

lemma basename_join_plain:
  assumes "CHR ''/'' \<notin> set s" "s \<noteq> []" "s \<noteq> ''.''" "s \<noteq> ''..''"
  shows "path_basename (path_join a s) = s"
proof -
  define p where "p = (if a = [] then s else a @ ''/'' @ s)"
  have pj: "path_join a s = path_normalize p"
    using assms(2) by (simp add: path_join_def p_def)
  have "last s \<in> set s"
    using assms(2) by simp
  with assms(1) have "last s \<noteq> CHR ''/''"
    by metis
  then have ne: "p \<noteq> []" and la: "last p \<noteq> CHR ''/''"
    using assms(2) by (auto simp: p_def)
  obtain segs where sp: "splitPath p = segs @ [s]"
    using assms(1) by (cases "a = []") (auto simp: p_def splitPath_plain splitPath_append)
  define r where "r = normalizeSegments (hd p \<noteq> CHR ''/'') segs []"
  have ns: "normalizeSegments (hd p \<noteq> CHR ''/'') (splitPath p) [] = r @ [s]"
    using assms(2-4) by (simp add: sp r_def normalizeSegments_snoc)
  have j: "joinSegments (r @ [s]) = (if r = [] then s else joinSegments r @ ''/'' @ s)"
    by (rule joinSegments_snoc)
  have "path_normalize p =
      (if hd p = CHR ''/'' then ''/'' else []) @ (if r = [] then s else joinSegments r @ ''/'' @ s)"
    using ne la assms(2) by (simp add: path_normalize_def Let_def ns j)
  then show ?thesis
    using basename_plain[OF assms(1,2)] basename_plain(1)[OF assms(1,2), of "[]"]
      basename_plain(1)[OF assms(1,2), of "''/'' @ joinSegments r"]
      basename_plain(1)[OF assms(1,2), of "joinSegments r"]
    by (auto simp: pj)
qed

lemma basename_cover:
  assumes "CHR ''/'' \<notin> set h"
  shows "path_basename (coverFilename e h) = h @ ''.png''"
  unfolding coverFilename_def using assms by (intro basename_join_plain) auto

lemma coverUrl_cover:
  "CHR ''/'' \<notin> set h \<Longrightarrow>
     coverUrl e (coverFilename e h) = urlBase (args e) @ ''/covers/'' @ h @ ''.png''"
  by (simp add: coverUrl_def basename_cover)

subsection \<open>What each stage of \<^verbatim>\<open>processQmod\<close> leaves alone\<close>

lemma lookupHash_None: "lookupHash e d st = (None, st1) \<Longrightarrow> hashes st1 d = None"
  by (auto simp: lookupHash_def Let_def split: if_splits)


lemma lookupHash_frame:
  "lookupHash e d st = (r, st1) \<Longrightarrow>
     files st1 = files st \<and> allMods st1 = allMods st
     \<and> (\<forall>k. k \<noteq> d \<longrightarrow> hashes st1 k = hashes st k)"
  by (auto simp: lookupHash_def Let_def split: if_splits)

lemma fetchPackage_frame:
  "fetchPackage e d p st = (r, st1) \<Longrightarrow> hashes st1 = hashes st \<and> allMods st1 = allMods st"
  by (auto simp: fetchPackage_def split: option.splits prod.splits)

lemma inspectArchive_frame_Inl:
  "inspectArchive e p st = Inl (err, st1) \<Longrightarrow> hashes st1 = hashes st \<and> allMods st1 = allMods st"
  by (auto simp: inspectArchive_def Let_def split: option.splits prod.splits)

lemma inspectArchive_frame_Inr:
  "inspectArchive e p st = Inr (cf, w, st1) \<Longrightarrow>
     hashes st1 = hashes st \<and> allMods st1 = allMods st \<and> files st1 = files st"
  by (auto simp: inspectArchive_def Let_def split: option.splits prod.splits)

lemma fetchCover_frame:
  "fetchCover e cf m out st = (b, out1, st1) \<Longrightarrow>
     hashes st1 = hashes st \<and> allMods st1 = allMods st \<and> files st1 = files st
     \<and> errors out1 = errors out \<and> hash out1 = hash out"
  by (auto simp: fetchCover_def Let_def split: option.splits fetched.splits if_splits)

lemma linkCover_frame:
  "linkCover e cf b m out st = (out1, m1, st1) \<Longrightarrow>
     hashes st1 = hashes st \<and> allMods st1 = allMods st
     \<and> errors out1 = errors out \<and> hash out1 = hash out
     \<and> (\<forall>k. k \<noteq> ''cover'' \<longrightarrow> m1 k = m k)"
  by (auto simp: linkCover_def Let_def split: sum.splits if_splits)

lemma resolveCover_frame:
  "resolveCover e cf c m out st = (out1, m1, st1) \<Longrightarrow>
     hashes st1 = hashes st \<and> allMods st1 = allMods st
     \<and> errors out1 = errors out \<and> hash out1 = hash out
     \<and> (\<forall>k. k \<noteq> ''cover'' \<longrightarrow> m1 k = m k)"
  apply (simp add: resolveCover_def split: prod.splits option.splits)
   apply (auto dest!: fetchCover_frame linkCover_frame)
  done

lemma resolveCover_none:
  "\<not> truthy (m ''cover'') \<Longrightarrow> resolveCover e cf None m out st = (out, m, st)"
  by (simp add: resolveCover_def fetchCover_def)

lemma resolveCover_warnings:
  "resolveCover e cf c m out st = (out1, m1, st1) \<Longrightarrow> \<exists>extra. warnings out1 = warnings out @ extra"
  by (auto simp: resolveCover_def fetchCover_def linkCover_def Let_def
      split: option.splits fetched.splits sum.splits if_splits)

subsection \<open>The paths through \<^verbatim>\<open>processQmod\<close>\<close>

lemma processQmod_skip:
  "''--skipHashes'' \<in> set (args e) \<Longrightarrow> processQmod e m v st = Inr (output0, m, st)"
  by (simp add: processQmod_def)

lemma processQmod_hit:
  assumes "''--skipHashes'' \<notin> set (args e)" "m ''download'' = Some d" "d \<noteq> []"
    and "lookupHash e d st = (Some h, st1)"
  shows "processQmod e m v st =
           Inr (output0\<lparr>hash := Some h\<rparr>,
                (if existsSync st1 (coverFilename e h)
                 then m(''cover'' \<mapsto> coverUrl e (coverFilename e h)) else m), st1)"
  using assms by (simp add: processQmod_def)

lemma processQmod_notfound:
  assumes "''--skipHashes'' \<notin> set (args e)" "m ''download'' = Some d" "d \<noteq> []"
    and "truthy (m ''id'')" "truthy (m ''version'')"
    and "lookupHash e d st = (None, st1)"
    and "fetchPackage e d (qmodPathOf e m v) st1 = (None, st2)"
  shows "processQmod e m v st =
           Inr (\<lparr>messages = [d], errors = [''Not found''], warnings = [], hash = None\<rparr>, m, st2)"
  using assms by (simp add: processQmod_def output0_def)

lemma processQmod_inspect:
  assumes "''--skipHashes'' \<notin> set (args e)" "m ''download'' = Some d" "d \<noteq> []"
    and "truthy (m ''id'')" "truthy (m ''version'')"
    and "lookupHash e d st = (None, st1)"
    and "fetchPackage e d (qmodPathOf e m v) st1 = (Some h, st2)"
    and "files st2 (qmodPathOf e m v) = Some b"
  shows "processQmod e m v st =
           (case inspectArchive e (qmodPathOf e m v) (st2\<lparr>hashes := (hashes st2)(d \<mapsto> h)\<rparr>) of
              Inl (err, st4) \<Rightarrow>
                Inr (\<lparr>messages = [d], errors = [err], warnings = [], hash = Some h\<rparr>, m, st4)
            | Inr (coverFile, warns, st4) \<Rightarrow>
                Inr (resolveCover e (coverFilename e h) coverFile m
                       \<lparr>messages = [d], errors = [], warnings = warns, hash = Some h\<rparr> st4))"
  using assms
  by (simp add: processQmod_def output0_def existsSync_def Let_def split: sum.splits prod.splits)

lemma processQmod_returns:
  assumes "truthy (m ''id'')" "truthy (m ''version'')" "truthy (m ''download'')"
  shows "\<exists>res m1 st1. processQmod e m v st = Inr (res, m1, st1)"
proof (cases "''--skipHashes'' \<in> set (args e)")
  case True
  then show ?thesis by (simp add: processQmod_def)
next
  case False
  obtain q st1 where l: "lookupHash e (the (m ''download'')) st = (q, st1)"
    by (cases "lookupHash e (the (m ''download'')) st")
  obtain r st2 where f: "fetchPackage e (the (m ''download'')) (qmodPathOf e m v) st1 = (r, st2)"
    by (cases "fetchPackage e (the (m ''download'')) (qmodPathOf e m v) st1")
  show ?thesis
    using False assms l f
    by (auto simp: processQmod_def Let_def split: option.splits sum.splits prod.splits)
       (metis prod_cases3)+
qed

lemma processQmod_frame:
  assumes "processQmod e m v st = Inr (res, m1, st1)"
  shows "allMods st1 = allMods st"
    and "\<forall>k. k \<noteq> ''cover'' \<longrightarrow> m1 k = m k"
    and "\<forall>k. m ''download'' \<noteq> Some k \<longrightarrow> hashes st1 k = hashes st k"
proof -
  show "allMods st1 = allMods st" "\<forall>k. k \<noteq> ''cover'' \<longrightarrow> m1 k = m k"
    using assms
    by (auto simp: processQmod_def Let_def existsSync_def
           split: option.splits sum.splits prod.splits if_splits
           dest!: lookupHash_frame fetchPackage_frame inspectArchive_frame_Inl
                  inspectArchive_frame_Inr resolveCover_frame)
  show "\<forall>k. m ''download'' \<noteq> Some k \<longrightarrow> hashes st1 k = hashes st k"
  proof (cases "m ''download''")
    case None
    with assms show ?thesis
      by (auto simp: processQmod_def split: if_splits)
  next
    case (Some d)
    with assms show ?thesis
      by (auto simp: processQmod_def Let_def existsSync_def
           split: option.splits sum.splits prod.splits if_splits
           dest!: lookupHash_frame fetchPackage_frame inspectArchive_frame_Inl
                  inspectArchive_frame_Inr resolveCover_frame)
  qed
qed


subsection \<open>The catalog loop\<close>

lemma validateMod_fatal: "(validateMod e v f m \<noteq> None) = fatalDefect e v f m"
  by (auto simp: validateMod_def fatalDefect_def split: option.splits if_splits)

lemma validateMod_NoneD:
  assumes "validateMod e v f m = None"
  shows "\<not> isNullOrWhitespace (m ''id'')" "\<not> isNullOrWhitespace (m ''version'')"
    "\<not> isNullOrWhitespace (m ''download'')"
  using assms by (auto simp: validateMod_def split: option.splits if_splits)

lemma processModFile_fatal:
  "validateMod e v f m = Some msg \<Longrightarrow> processModFile e v (f, m) st = Inl (Exit 1 msg, st)"
  by (simp add: processModFile_def exitWithError_def)

lemma processModFile_ok:
  "validateMod e v f m = None \<Longrightarrow> processQmod e m v st = Inr (res, m1, st1) \<Longrightarrow>
     processModFile e v (f, m) st = Inr (admit e v res (uniformMod e m1) st1)"
  by (simp add: processModFile_def)

lemma processModFile_InrD:
  assumes "processModFile e v (f, m) st = Inr st'"
  obtains res m1 st1 where "validateMod e v f m = None" "processQmod e m v st = Inr (res, m1, st1)"
    "st' = admit e v res (uniformMod e m1) st1"
  using assms
  by (auto simp: processModFile_def exitWithError_def split: option.splits sum.splits)

lemma processMods_append:
  "processMods e v (xs @ ys) st =
     (case processMods e v xs st of Inl x \<Rightarrow> Inl x | Inr st1 \<Rightarrow> processMods e v ys st1)"
  by (induction xs arbitrary: st) (auto split: sum.splits)

lemma combine_append:
  "combine e (xs @ ys) st =
     (case combine e xs st of Inl x \<Rightarrow> Inl x | Inr st1 \<Rightarrow> combine e ys st1)"
  by (induction xs arbitrary: st) (auto split: sum.splits)

lemma admit_allMods_ok:
  "errors res = [] \<Longrightarrow>
     allMods (admit e v res u st) =
       (allMods st)(v \<mapsto> modsOf st v @ [if truthy (u ''download'') then u(''hash'' := hashes st (the (u ''download''))) else u])"
  by (simp add: admit_def Let_def)


lemma admit_allMods_err: "errors res \<noteq> [] \<Longrightarrow> allMods (admit e v res u st) = allMods st"
  by (simp add: admit_def Let_def)

lemma admit_hashes_err:
  "errors res \<noteq> [] \<Longrightarrow>
     hashes (admit e v res u st) =
       (if truthy (u ''download'') then (hashes st)(the (u ''download'') := None) else hashes st)"
  by (simp add: admit_def Let_def)

lemma admit_files: "files (admit e v res u st) = files st"
  by (simp add: admit_def Let_def)

lemma admit_hashes_None: "hashes st k = None \<Longrightarrow> hashes (admit e v res u st) k = None"
  by (simp add: admit_def Let_def)



lemma uniform_download:
  assumes "''download'' \<in> set (modKeys e)" "m ''download'' = Some d" "trim d \<noteq> []"
  shows "uniformMod e m ''download'' = Some (trim d)"
  using assms by (simp add: uniformMod_apply uniformField_Some)


lemma step_hashes_None:
  assumes "processModFile e v (f, m) st = Inr st'" "m ''download'' \<noteq> Some k" "hashes st k = None"
  shows "hashes st' k = None"
proof -
  from assms(1) obtain res m1 st1 where
    p: "processQmod e m v st = Inr (res, m1, st1)" and s: "st' = admit e v res (uniformMod e m1) st1"
    by (rule processModFile_InrD)
  from processQmod_frame(3)[OF p] assms(2,3) have "hashes st1 k = None" by simp
  then show ?thesis unfolding s by (rule admit_hashes_None)
qed



lemma processMods_hashes_None:
  "processMods e v fs st = Inr st' \<Longrightarrow> Some k \<notin> set (downloadsOf fs) \<Longrightarrow> hashes st k = None
     \<Longrightarrow> hashes st' k = None"
proof (induction fs arbitrary: st)
  case Nil
  then show ?case by simp
next
  case (Cons x fs)
  obtain f m where x: "x = (f, m)" by (cases x)
  from Cons.prems(1) obtain s1 where
    1: "processModFile e v (f, m) st = Inr s1" and 2: "processMods e v fs s1 = Inr st'"
    by (auto simp: x split: sum.splits)
  from Cons.prems(2) have "m ''download'' \<noteq> Some k" "Some k \<notin> set (downloadsOf fs)"
    by (auto simp: downloadsOf_def x)
  with step_hashes_None[OF 1 _ Cons.prems(3)] Cons.IH[OF 2] show ?case by simp
qed



lemma combine_hashes_None:
  "combine e vs st = Inr st' \<Longrightarrow> Some k \<notin> set (concat (map (\<lambda>x. downloadsOf (snd x)) vs))
     \<Longrightarrow> hashes st k = None \<Longrightarrow> hashes st' k = None"
proof (induction vs arbitrary: st)
  case Nil
  then show ?case by simp
next
  case (Cons x vs)
  obtain v fs where x: "x = (v, fs)" by (cases x)
  from Cons.prems(1) obtain s1 where
    1: "processMods e v fs (st\<lparr>allMods := (allMods st)(v \<mapsto> modsOf st v)\<rparr>) = Inr s1"
    and 2: "combine e vs s1 = Inr st'"
    by (auto simp: x split: sum.splits)
  from Cons.prems(2) have a: "Some k \<notin> set (downloadsOf fs)"
    "Some k \<notin> set (concat (map (\<lambda>x. downloadsOf (snd x)) vs))"
    by (auto simp: x)
  from processMods_hashes_None[OF 1 a(1)] Cons.prems(3) have "hashes s1 k = None" by simp
  with Cons.IH[OF 2 a(2)] show ?case by simp
qed



lemma processModFile_completes:
  assumes "validateMod e v f m = None"
  shows "\<exists>st1. processModFile e v (f, m) st = Inr st1"
proof -
  from validateMod_NoneD[OF assms] obtain res m1 st1 where
    "processQmod e m v st = Inr (res, m1, st1)"
    using processQmod_returns[of m e v st] by (blast dest: nonblank_truthy)
  with assms show ?thesis
    by (simp add: processModFile_ok)
qed

lemma processMods_completes:
  "list_all (\<lambda>x. validateMod e v (fst x) (snd x) = None) fs \<Longrightarrow>
     \<exists>st1. processMods e v fs st = Inr st1"
proof (induction fs arbitrary: st)
  case Nil
  then show ?case by simp
next
  case (Cons x fs)
  obtain f m where x: "x = (f, m)" by (cases x)
  from Cons.prems have "validateMod e v f m = None"
    by (simp add: x)
  then obtain s1 where "processModFile e v (f, m) st = Inr s1"
    using processModFile_completes by blast
  moreover from Cons.prems Cons.IH obtain s2 where "processMods e v fs s1 = Inr s2"
    by auto
  ultimately show ?case by (simp add: x)
qed

lemma combine_completes:
  "list_all (\<lambda>y. list_all (\<lambda>x. validateMod e (fst y) (fst x) (snd x) = None) (snd y)) vs \<Longrightarrow>
     \<exists>st1. combine e vs st = Inr st1"
proof (induction vs arbitrary: st)
  case Nil
  then show ?case by simp
next
  case (Cons y vs)
  obtain v fs where y: "y = (v, fs)" by (cases y)
  from Cons.prems have "list_all (\<lambda>x. validateMod e v (fst x) (snd x) = None) fs"
    by (simp add: y)
  then obtain s1 where
    "processMods e v fs (st\<lparr>allMods := (allMods st)(v \<mapsto> modsOf st v)\<rparr>) = Inr s1"
    using processMods_completes by blast
  moreover from Cons.prems Cons.IH obtain s2 where "combine e vs s1 = Inr s2"
    by auto
  ultimately show ?case by (simp add: y)
qed

lemma errorsOf_SomeD:
  "errorsOf r = Some es \<Longrightarrow> \<exists>res m1 st. r = Inr (res, m1, st) \<and> errors res = es"
  by (auto simp: errorsOf_def split: sum.splits)

section \<open>The claims\<close>




text \<open>
  C2 (admission gate), as amended. For a mod that passes the fatal validation, the
  normalised record, with the cached hash attached, is appended to the list of its game
  version if and only if the outcome has no error. When the outcome has an error nothing
  is appended and the cache entry under the mod's trimmed download url is deleted; unless
  a mod file processed later in the run has that url as its download url, the cache has no
  entry under it when the run ends.
\<close>

theorem admission_gate:
  assumes "processModFile e version (modFilename, m) st = Inr st1"
    and "processQmod e m version st = Inr (res, m1, sa)"
    and "''download'' \<in> set (modKeys e)"
    and "m ''download'' = Some d"
    and "processMods e version rest st1 = Inr st2"
    and "combine e later st2 = Inr st3"
  shows "(errors res = [] \<longrightarrow>
            allMods st1 = (allMods st)(version \<mapsto>
              modsOf st version @ [(uniformMod e m1)(''hash'' := hashes sa (trim d))]))
       \<and> (errors res \<noteq> [] \<longrightarrow>
            allMods st1 = allMods st \<and> hashes st1 = (hashes sa)(trim d := None)
            \<and> (Some (trim d) \<notin> set (downloadsOf rest) \<and> Some (trim d) \<notin> set (downloadsOfAll later)
                 \<longrightarrow> hashes st3 (trim d) = None))
       \<and> ((modsOf st1 version \<noteq> modsOf st version) = (errors res = []))"
proof -
  let ?u = "(uniformMod e m1)(''hash'' := hashes sa (trim d))"
  from assms(1) obtain res' m1' sc where v: "validateMod e version modFilename m = None"
    and q0: "processQmod e m version st = Inr (res', m1', sc)"
    and s0: "st1 = admit e version res' (uniformMod e m1') sc"
    by (rule processModFile_InrD)
  from q0 s0 assms(2) have s: "st1 = admit e version res (uniformMod e m1) sa"
    by simp
  from validateMod_NoneD(3)[OF v] assms(4) have td: "trim d \<noteq> []"
    by (simp add: isNullOrWhitespace_def)
  from processQmod_frame(2)[OF assms(2)] assms(4) have "m1 ''download'' = Some d"
    by simp
  with assms(3) td have ud: "uniformMod e m1 ''download'' = Some (trim d)"
    by (simp add: uniform_download)
  note fr = processQmod_frame(1)[OF assms(2)]
  have ok: "allMods st1 = (allMods st)(version \<mapsto> modsOf st version @ [?u])"
    if "errors res = []"
    unfolding s using that ud td fr by (simp add: admit_allMods_ok modsOf_def)
  have err: "allMods st1 = allMods st" "hashes st1 = (hashes sa)(trim d := None)"
    if "errors res \<noteq> []"
    unfolding s using that ud td fr by (simp_all add: admit_allMods_err admit_hashes_err)
  have run: "hashes st3 (trim d) = None"
    if "errors res \<noteq> []" "Some (trim d) \<notin> set (downloadsOf rest)"
      "Some (trim d) \<notin> set (downloadsOfAll later)"
  proof -
    from err(2)[OF that(1)] have "hashes st1 (trim d) = None" by simp
    from processMods_hashes_None[OF assms(5) that(2) this]
    have "hashes st2 (trim d) = None" .
    with combine_hashes_None[OF assms(6)] that(3) show ?thesis
      by (simp add: downloadsOfAll_def)
  qed
  have iff: "(modsOf st1 version \<noteq> modsOf st version) = (errors res = [])"
  proof (cases "errors res = []")
    case True
    with ok show ?thesis by (simp add: modsOf_def)
  next
    case False
    with err(1) show ?thesis by (simp add: modsOf_def)
  qed
  from ok err run iff show ?thesis by blast
qed

text \<open>
  Mod \<open>foo\<close> with an outcome without error (every download succeeds) and with an
  outcome with an error (no download succeeds); the files that follow have another url.
\<close>

theorem admission_gate_witness:
  "''download'' \<in> set (modKeys ex_env_good) \<and> ''download'' \<in> set (modKeys ex_env)
   \<and> ex_mod ''download'' = Some ''u''
   \<and> Some (trim ''u'') \<notin> set (downloadsOf ex_rest_baz)
   \<and> Some (trim ''u'') \<notin> set (downloadsOfAll ex_later_baz)
   \<and> (\<exists>res m1 sa st1 st2 st3.
        processQmod ex_env_good ex_mod ''1.0'' ex_world_init = Inr (res, m1, sa)
        \<and> errors res = []
        \<and> processModFile ex_env_good ''1.0'' (''foo-1.0.json'', ex_mod) ex_world_init = Inr st1
        \<and> processMods ex_env_good ''1.0'' ex_rest_baz st1 = Inr st2
        \<and> combine ex_env_good ex_later_baz st2 = Inr st3
        \<and> allMods st1 = (allMods ex_world_init)(''1.0'' \<mapsto> modsOf ex_world_init ''1.0'' @
             [(uniformMod ex_env_good m1)(''hash'' := hashes sa (trim ''u''))])
        \<and> modsOf st1 ''1.0'' \<noteq> modsOf ex_world_init ''1.0'')
   \<and> (\<exists>res m1 sa st1 st2 st3.
        processQmod ex_env ex_mod ''1.0'' ex_world_init = Inr (res, m1, sa)
        \<and> errors res \<noteq> []
        \<and> processModFile ex_env ''1.0'' (''foo-1.0.json'', ex_mod) ex_world_init = Inr st1
        \<and> processMods ex_env ''1.0'' ex_rest_baz st1 = Inr st2
        \<and> combine ex_env ex_later_baz st2 = Inr st3
        \<and> allMods st1 = allMods ex_world_init
        \<and> hashes st1 = (hashes sa)(trim ''u'' := None)
        \<and> hashes st3 (trim ''u'') = None
        \<and> modsOf st1 ''1.0'' = modsOf ex_world_init ''1.0'')"
proof -
  have k: "''download'' \<in> set (modKeys ex_env_good)" "''download'' \<in> set (modKeys ex_env)"
    by (simp_all add: ex_env_good_def ex_env_def)
  have d: "ex_mod ''download'' = Some ''u''"
    by (simp add: ex_mod_def)
  have n: "Some (trim ''u'') \<notin> set (downloadsOf ex_rest_baz)"
    "Some (trim ''u'') \<notin> set (downloadsOfAll ex_later_baz)"
    by (simp_all add: downloadsOf_def downloadsOfAll_def ex_rest_baz_def ex_later_baz_def
        ex_mod_baz_def str_defs)
  have "errorsOf (processQmod ex_env_good ex_mod ''1.0'' ex_world_init) = Some []"
    by code_simp
  then obtain res m1 sa where
    q: "processQmod ex_env_good ex_mod ''1.0'' ex_world_init = Inr (res, m1, sa)"
    and e: "errors res = []"
    by (blast dest: errorsOf_SomeD)
  have v: "validateMod ex_env_good ''1.0'' ''foo-1.0.json'' ex_mod = None"
    "validateMod ex_env_good ''1.0'' ''baz-1.0.json'' ex_mod_baz = None"
    "validateMod ex_env_good ''1.1'' ''baz-1.0.json'' ex_mod_baz = None"
    by code_simp+
  from v(1) obtain st1 where
    1: "processModFile ex_env_good ''1.0'' (''foo-1.0.json'', ex_mod) ex_world_init = Inr st1"
    using processModFile_completes by blast
  from v(2) obtain st2 where 2: "processMods ex_env_good ''1.0'' ex_rest_baz st1 = Inr st2"
    using processMods_completes [of ex_env_good "''1.0''" ex_rest_baz st1]
    by (auto simp: ex_rest_baz_def)
  from v(3) obtain st3 where 3: "combine ex_env_good ex_later_baz st2 = Inr st3"
    using combine_completes [of ex_env_good ex_later_baz st2]
    by (auto simp: ex_later_baz_def)
  from admission_gate [OF 1 q k(1) d 2 3] e
  have "allMods st1 = (allMods ex_world_init)(''1.0'' \<mapsto> modsOf ex_world_init ''1.0'' @
             [(uniformMod ex_env_good m1)(''hash'' := hashes sa (trim ''u''))])
        \<and> modsOf st1 ''1.0'' \<noteq> modsOf ex_world_init ''1.0''"
    by blast
  with q e 1 2 3 have a: "\<exists>res m1 sa st1 st2 st3.
        processQmod ex_env_good ex_mod ''1.0'' ex_world_init = Inr (res, m1, sa)
        \<and> errors res = []
        \<and> processModFile ex_env_good ''1.0'' (''foo-1.0.json'', ex_mod) ex_world_init = Inr st1
        \<and> processMods ex_env_good ''1.0'' ex_rest_baz st1 = Inr st2
        \<and> combine ex_env_good ex_later_baz st2 = Inr st3
        \<and> allMods st1 = (allMods ex_world_init)(''1.0'' \<mapsto> modsOf ex_world_init ''1.0'' @
             [(uniformMod ex_env_good m1)(''hash'' := hashes sa (trim ''u''))])
        \<and> modsOf st1 ''1.0'' \<noteq> modsOf ex_world_init ''1.0''"
    by blast
  have "errorsOf (processQmod ex_env ex_mod ''1.0'' ex_world_init) = Some [''Not found'']"
    by code_simp
  then obtain res' m1' sa' where
    q': "processQmod ex_env ex_mod ''1.0'' ex_world_init = Inr (res', m1', sa')"
    and e': "errors res' \<noteq> []"
    by (fastforce dest: errorsOf_SomeD)
  have v': "validateMod ex_env ''1.0'' ''foo-1.0.json'' ex_mod = None"
    "validateMod ex_env ''1.0'' ''baz-1.0.json'' ex_mod_baz = None"
    "validateMod ex_env ''1.1'' ''baz-1.0.json'' ex_mod_baz = None"
    by code_simp+
  from v'(1) obtain st1' where
    p1: "processModFile ex_env ''1.0'' (''foo-1.0.json'', ex_mod) ex_world_init = Inr st1'"
    using processModFile_completes by blast
  from v'(2) obtain st2' where p2: "processMods ex_env ''1.0'' ex_rest_baz st1' = Inr st2'"
    using processMods_completes [of ex_env "''1.0''" ex_rest_baz st1']
    by (auto simp: ex_rest_baz_def)
  from v'(3) obtain st3' where p3: "combine ex_env ex_later_baz st2' = Inr st3'"
    using combine_completes [of ex_env ex_later_baz st2']
    by (auto simp: ex_later_baz_def)
  from admission_gate [OF p1 q' k(2) d p2 p3] e' n
  have "allMods st1' = allMods ex_world_init
        \<and> hashes st1' = (hashes sa')(trim ''u'' := None)
        \<and> hashes st3' (trim ''u'') = None
        \<and> modsOf st1' ''1.0'' = modsOf ex_world_init ''1.0''"
    by blast
  with q' e' p1 p2 p3 have b: "\<exists>res m1 sa st1 st2 st3.
        processQmod ex_env ex_mod ''1.0'' ex_world_init = Inr (res, m1, sa)
        \<and> errors res \<noteq> []
        \<and> processModFile ex_env ''1.0'' (''foo-1.0.json'', ex_mod) ex_world_init = Inr st1
        \<and> processMods ex_env ''1.0'' ex_rest_baz st1 = Inr st2
        \<and> combine ex_env ex_later_baz st2 = Inr st3
        \<and> allMods st1 = allMods ex_world_init
        \<and> hashes st1 = (hashes sa)(trim ''u'' := None)
        \<and> hashes st3 (trim ''u'') = None
        \<and> modsOf st1 ''1.0'' = modsOf ex_world_init ''1.0''"
    by blast
  from k d n a b show ?thesis
    by blast
qed

text \<open>
  C2 as stated fails in two runs. With a stale package of \<open>foo\<close> on disk, \<open>foo\<close> is
  rejected (\<open>No info json\<close>) and then \<open>bar\<close>, which has the same url, is admitted:
  when the run ends the cache has an entry for the url of the rejected mod. And when the
  url of the rejected mod starts with a blank, the entry stored under the url as written
  is still there when the run ends, since the loop deletes under the trimmed url.
\<close>

theorem rejected_url_still_cached:
  "errorsOf (processQmod ex_env_good ex_mod ''1.0'' ex_world_stale_init) = Some [''No info json'']
   \<and> ex_mod ''download'' = Some ''u''
   \<and> \<not> isl (combine ex_env_good ex_run_foo_bar ex_world_stale)
   \<and> catalogAfter (combine ex_env_good ex_run_foo_bar ex_world_stale) ''1.0'' ''id'' = [Some ''bar'']
   \<and> cacheAfter (combine ex_env_good ex_run_foo_bar ex_world_stale) ''u'' = Some ''abc123''
   \<and> errorsOf (processQmod ex_env_nomanifest ex_mod_spaced ''1.0'' ex_world_init)
        = Some [''No info json'']
   \<and> ex_mod_spaced ''download'' = Some '' u''
   \<and> \<not> isl (combine ex_env_nomanifest ex_run_spaced ex_world)
   \<and> catalogAfter (combine ex_env_nomanifest ex_run_spaced ex_world) ''1.0'' ''id'' = []
   \<and> cacheAfter (combine ex_env_nomanifest ex_run_spaced ex_world) '' u'' = Some ''abc123''"
  by code_simp

text \<open>
  C3 (cache hit), as amended. When \<^verbatim>\<open>--skipHashes\<close> is not given, the mod's download url
  is not empty, the hash cache maps it to a hash \<open>h\<close>, and \<^verbatim>\<open>--recheckUrls\<close> is absent
  or the liveness probe succeeds, then \<^verbatim>\<open>processQmod\<close> returns the outcome with hash
  \<open>h\<close> and no message, error or warning. The cache and the files are as before and the
  only call made is the probe, so nothing is downloaded and no archive is opened. The
  mod's cover is set, to the url of \<open>covers/{h}.png\<close>, exactly when a file exists at
  that path; otherwise the mod record is unchanged.
\<close>

theorem cache_hit:
  assumes "''--skipHashes'' \<notin> set (args e)"
    and "m ''download'' = Some d" "d \<noteq> []"
    and "hashes st d = Some h"
    and "''--recheckUrls'' \<notin> set (args e) \<or> checkUrl e (length (trace st)) d"
    and "CHR ''/'' \<notin> set h"
  shows "processQmod e m gameVersion st =
           Inr (\<lparr>messages = [], errors = [], warnings = [], hash = Some h\<rparr>,
                (if existsSync st (coverFilename e h)
                 then m(''cover'' \<mapsto> urlBase (args e) @ ''/covers/'' @ h @ ''.png'') else m),
                st\<lparr>trace := trace st @
                      (if ''--recheckUrls'' \<in> set (args e) then [CheckUrl d] else [])\<rparr>)"
proof -
  let ?st1 = "st\<lparr>trace := trace st @
                 (if ''--recheckUrls'' \<in> set (args e) then [CheckUrl d] else [])\<rparr>"
  from assms(4,5) have l: "lookupHash e d st = (Some h, ?st1)"
    by (auto simp: lookupHash_def Let_def)
  have "existsSync ?st1 (coverFilename e h) = existsSync st (coverFilename e h)"
    by (simp add: existsSync_def)
  moreover have "processQmod e m gameVersion st =
           Inr (output0\<lparr>hash := Some h\<rparr>,
                (if existsSync ?st1 (coverFilename e h)
                 then m(''cover'' \<mapsto> coverUrl e (coverFilename e h)) else m), ?st1)"
    using assms(1-3) l by (rule processQmod_hit)
  ultimately show ?thesis
    using assms(6) by (simp add: coverUrl_cover output0_def)
qed

text \<open>
  The scenario of the spec: mod \<open>foo\<close>, version \<open>1.0\<close>, the url cached with hash
  \<open>abc123\<close>, and \<open>covers/abc123.png\<close> on disk. And the same mod under
  \<^verbatim>\<open>--recheckUrls\<close> with a url that answers and no cover on disk: the probe is the only
  call, and the mod record is unchanged.
\<close>

theorem cache_hit_witness:
  "''--skipHashes'' \<notin> set (args ex_env) \<and> ex_mod ''download'' = Some ''u''
   \<and> hashes ex_world_cached ''u'' = Some ''abc123'' \<and> ''--recheckUrls'' \<notin> set (args ex_env)
   \<and> existsSync ex_world_cached (coverFilename ex_env ''abc123'')
   \<and> processQmod ex_env ex_mod ''1.0'' ex_world_cached =
       Inr (\<lparr>messages = [], errors = [], warnings = [], hash = Some ''abc123''\<rparr>,
            ex_mod(''cover'' \<mapsto> ''./covers/abc123.png''), ex_world_cached)
   \<and> ''--skipHashes'' \<notin> set (args ex_env_recheck)
   \<and> hashes ex_world_nocover ''u'' = Some ''abc123''
   \<and> ''--recheckUrls'' \<in> set (args ex_env_recheck)
   \<and> checkUrl ex_env_recheck (length (trace ex_world_nocover)) ''u''
   \<and> \<not> existsSync ex_world_nocover (coverFilename ex_env_recheck ''abc123'')
   \<and> processQmod ex_env_recheck ex_mod ''1.0'' ex_world_nocover =
       Inr (\<lparr>messages = [], errors = [], warnings = [], hash = Some ''abc123''\<rparr>,
            ex_mod, ex_world_nocover\<lparr>trace := [CheckUrl ''u'']\<rparr>)"
proof -
  have a: "''--skipHashes'' \<notin> set (args ex_env)" "''--recheckUrls'' \<notin> set (args ex_env)"
    "''--skipHashes'' \<notin> set (args ex_env_recheck)"
    "''--recheckUrls'' \<in> set (args ex_env_recheck)"
    "urlBase (args ex_env) = ''.''" "urlBase (args ex_env_recheck) = ''.''"
    by code_simp+
  have d: "ex_mod ''download'' = Some ''u''" "''u'' \<noteq> []" "CHR ''/'' \<notin> set ''abc123''"
    by (simp_all add: ex_mod_def)
  have h: "hashes ex_world_cached ''u'' = Some ''abc123''"
    "hashes ex_world_nocover ''u'' = Some ''abc123''"
    "trace ex_world_cached = []" "trace ex_world_nocover = []"
    by (simp_all add: ex_world_cached_def ex_world_nocover_def ex_world_def)
  have c: "checkUrl ex_env_recheck (length (trace ex_world_nocover)) ''u''"
    by (simp add: ex_env_recheck_def ex_env_def)
  have x: "existsSync ex_world_cached (coverFilename ex_env ''abc123'')"
    "\<not> existsSync ex_world_nocover (coverFilename ex_env_recheck ''abc123'')"
    by code_simp+
  from cache_hit [of ex_env ex_mod "''u''" ex_world_cached "''abc123''" "''1.0''"]
    a(1) d(1) d(2) h(1) a(2) d(3)
  have 1: "processQmod ex_env ex_mod ''1.0'' ex_world_cached =
       Inr (\<lparr>messages = [], errors = [], warnings = [], hash = Some ''abc123''\<rparr>,
            ex_mod(''cover'' \<mapsto> ''./covers/abc123.png''), ex_world_cached)"
    by (simp add: a x h)
  from cache_hit [of ex_env_recheck ex_mod "''u''" ex_world_nocover "''abc123''" "''1.0''"]
    a(3) d(1) d(2) h(2) c d(3)
  have 2: "processQmod ex_env_recheck ex_mod ''1.0'' ex_world_nocover =
       Inr (\<lparr>messages = [], errors = [], warnings = [], hash = Some ''abc123''\<rparr>,
            ex_mod, ex_world_nocover\<lparr>trace := [CheckUrl ''u'']\<rparr>)"
    by (simp add: a x h)
  from a d h c x 1 2 show ?thesis
    by blast
qed

text \<open>
  C3 as stated fails under \<^verbatim>\<open>--skipHashes\<close>: the url is cached and no recheck is asked
  for, yet the outcome carries no hash.
\<close>

theorem cache_hit_skipped:
  "hashes ex_world_cached ''u'' = Some ''abc123'' \<and> ex_mod ''download'' = Some ''u''
   \<and> ''--recheckUrls'' \<notin> set (args ex_env_skip)
   \<and> processQmod ex_env_skip ex_mod ''1.0'' ex_world_cached =
       Inr (\<lparr>messages = [], errors = [], warnings = [], hash = None\<rparr>, ex_mod, ex_world_cached)"
  by (simp add: processQmod_def output0_def ex_env_skip_def ex_defs ex_world_cached_def)

text \<open>
  C4 (download failure), as amended. For a mod on the cache-miss path with no local
  package, a download that returns \<^verbatim>\<open>null\<close> gives an outcome whose only error is
  \<open>Not found\<close>; the mod is not appended to the catalog, and the cache has no entry for
  its download url when its loop body is done and, unless a mod file processed later in
  the run has the same download url, when the run ends.
\<close>

theorem download_failure:
  assumes "''--skipHashes'' \<notin> set (args e)"
    and "processModFile e version (modFilename, m) st = Inr st1"
    and "m ''download'' = Some d"
    and "lookupHash e d st = (None, sa)"
    and "files sa (qmodPathOf e m version) = None"
    and "downloadFile e (length (trace sa)) d (qmodPathOf e m version) = (None, w)"
    and "processMods e version rest st1 = Inr st2"
    and "combine e later st2 = Inr st3"
    and "Some d \<notin> set (downloadsOf rest)"
    and "Some d \<notin> set (downloadsOfAll later)"
  shows "(\<exists>sb. processQmod e m version st =
            Inr (\<lparr>messages = [d], errors = [''Not found''], warnings = [], hash = None\<rparr>, m, sb))
       \<and> allMods st1 = allMods st \<and> hashes st1 d = None \<and> hashes st3 d = None"
proof -
  let ?p = "qmodPathOf e m version"
  let ?sb = "sa\<lparr>files := (case w of None \<Rightarrow> files sa | Some b \<Rightarrow> (files sa)(?p \<mapsto> b)),
                 trace := trace sa @ [DownloadFile d ?p]\<rparr>"
  let ?res = "\<lparr>messages = [d], errors = [''Not found''], warnings = [], hash = None\<rparr>"
  from assms(2) have v: "validateMod e version modFilename m = None"
    by (rule processModFile_InrD)
  from validateMod_NoneD[OF v] assms(3)
  have t: "truthy (m ''id'')" "truthy (m ''version'')" "d \<noteq> []"
    by (auto dest: nonblank_truthy)
  have f: "fetchPackage e d ?p sa = (None, ?sb)"
    using assms(5,6) by (simp add: fetchPackage_def)
  have q: "processQmod e m version st = Inr (?res, m, ?sb)"
    using assms(1) assms(3) t(3) t(1) t(2) assms(4) f by (rule processQmod_notfound)
  have "processModFile e version (modFilename, m) st =
      Inr (admit e version ?res (uniformMod e m) ?sb)"
    using v q by (rule processModFile_ok)
  with assms(2) have s: "st1 = admit e version ?res (uniformMod e m) ?sb"
    by simp
  have am: "allMods ?sb = allMods st"
    using lookupHash_frame[OF assms(4)] by simp
  have "hashes ?sb d = None"
    using lookupHash_None[OF assms(4)] by simp
  then have h1: "hashes st1 d = None"
    unfolding s by (rule admit_hashes_None)
  from processMods_hashes_None[OF assms(7) assms(9) h1]
  have "hashes st2 d = None" .
  with combine_hashes_None[OF assms(8)] assms(10) have "hashes st3 d = None"
    by (simp add: downloadsOfAll_def)
  with q h1 am show ?thesis
    unfolding s by (simp add: admit_allMods_err)
qed

text \<open>
  No download succeeds: \<open>foo\<close> is rejected, and so are the files that follow, which
  have another url.
\<close>

theorem download_failure_witness:
  "''--skipHashes'' \<notin> set (args ex_env) \<and> ex_mod ''download'' = Some ''u''
   \<and> lookupHash ex_env ''u'' ex_world_init = (None, ex_world_init)
   \<and> files ex_world_init (qmodPathOf ex_env ex_mod ''1.0'') = None
   \<and> downloadFile ex_env (length (trace ex_world_init)) ''u'' (qmodPathOf ex_env ex_mod ''1.0'')
        = (None, None)
   \<and> Some ''u'' \<notin> set (downloadsOf ex_rest_baz)
   \<and> Some ''u'' \<notin> set (downloadsOfAll ex_later_baz)
   \<and> (\<exists>st1 st2 st3.
        processModFile ex_env ''1.0'' (''foo-1.0.json'', ex_mod) ex_world_init = Inr st1
        \<and> processMods ex_env ''1.0'' ex_rest_baz st1 = Inr st2
        \<and> combine ex_env ex_later_baz st2 = Inr st3
        \<and> allMods st1 = allMods ex_world_init \<and> hashes st1 ''u'' = None \<and> hashes st3 ''u'' = None)
   \<and> (\<exists>sb. processQmod ex_env ex_mod ''1.0'' ex_world_init =
          Inr (\<lparr>messages = [''u''], errors = [''Not found''], warnings = [], hash = None\<rparr>,
               ex_mod, sb))"
proof -
  have s: "''--skipHashes'' \<notin> set (args ex_env)"
    by (simp add: ex_env_def)
  have d: "ex_mod ''download'' = Some ''u''"
    by (simp add: ex_mod_def)
  have l: "lookupHash ex_env ''u'' ex_world_init = (None, ex_world_init)"
    by (simp add: lookupHash_def ex_world_init_def ex_world_def)
  have f: "files ex_world_init (qmodPathOf ex_env ex_mod ''1.0'') = None"
    by (simp add: ex_world_init_def ex_world_def)
  have w: "downloadFile ex_env (length (trace ex_world_init)) ''u'' (qmodPathOf ex_env ex_mod ''1.0'')
        = (None, None)"
    by (simp add: ex_env_def)
  have n: "Some ''u'' \<notin> set (downloadsOf ex_rest_baz)"
    "Some ''u'' \<notin> set (downloadsOfAll ex_later_baz)"
    by (simp_all add: downloadsOf_def downloadsOfAll_def ex_rest_baz_def ex_later_baz_def
        ex_mod_baz_def)
  have v: "validateMod ex_env ''1.0'' ''foo-1.0.json'' ex_mod = None"
    "validateMod ex_env ''1.0'' ''baz-1.0.json'' ex_mod_baz = None"
    "validateMod ex_env ''1.1'' ''baz-1.0.json'' ex_mod_baz = None"
    by code_simp+
  from v(1) obtain st1 where
    1: "processModFile ex_env ''1.0'' (''foo-1.0.json'', ex_mod) ex_world_init = Inr st1"
    using processModFile_completes by blast
  from v(2) obtain st2 where 2: "processMods ex_env ''1.0'' ex_rest_baz st1 = Inr st2"
    using processMods_completes [of ex_env "''1.0''" ex_rest_baz st1]
    by (auto simp: ex_rest_baz_def)
  from v(3) obtain st3 where 3: "combine ex_env ex_later_baz st2 = Inr st3"
    using combine_completes [of ex_env ex_later_baz st2]
    by (auto simp: ex_later_baz_def)
  from download_failure [OF s 1 d l f w 2 3 n] 1 2 3
  have "(\<exists>st1 st2 st3.
        processModFile ex_env ''1.0'' (''foo-1.0.json'', ex_mod) ex_world_init = Inr st1
        \<and> processMods ex_env ''1.0'' ex_rest_baz st1 = Inr st2
        \<and> combine ex_env ex_later_baz st2 = Inr st3
        \<and> allMods st1 = allMods ex_world_init \<and> hashes st1 ''u'' = None \<and> hashes st3 ''u'' = None)
   \<and> (\<exists>sb. processQmod ex_env ex_mod ''1.0'' ex_world_init =
          Inr (\<lparr>messages = [''u''], errors = [''Not found''], warnings = [], hash = None\<rparr>,
               ex_mod, sb))"
    by blast
  with s d l f w n show ?thesis
    by blast
qed

text \<open>
  C4 as stated fails when the download of \<open>foo\<close> fails and \<open>bar\<close>, processed next
  with the same url, downloads: when the run ends the cache has an entry for that url.
\<close>

theorem download_failure_cached_later:
  "ex_mod ''download'' = Some ''u''
   \<and> fst (lookupHash ex_env_flaky ''u'' ex_world_init) = None
   \<and> files ex_world_init ex_qmod = None
   \<and> downloadFile ex_env_flaky 0 ''u'' ex_qmod = (None, None)
   \<and> errorsOf (processQmod ex_env_flaky ex_mod ''1.0'' ex_world_init) = Some [''Not found'']
   \<and> \<not> isl (combine ex_env_flaky ex_run_foo_bar ex_world)
   \<and> catalogAfter (combine ex_env_flaky ex_run_foo_bar ex_world) ''1.0'' ''id'' = [Some ''bar'']
   \<and> cacheAfter (combine ex_env_flaky ex_run_foo_bar ex_world) ''u'' = Some ''abc123''"
  by code_simp

text \<open>
  C5 (which failures delete the local file). A validated mod reaches archive inspection
  with a package at its local path, downloaded or already there. If the package cannot be
  opened as an archive, the outcome has the error \<open>Reading archive\<close> and the local file
  is deleted (\<^verbatim>\<open>unlinkSync\<close>). If it opens but holds neither \<open>bmbfmod.json\<close> nor
  \<open>mod.json\<close>, the outcome has the error \<open>No info json\<close>, nothing is deleted and the
  local file is still there after the loop body. In both cases the mod is not appended to
  the catalog.
\<close>

theorem archive_failure_policy:
  assumes "''--skipHashes'' \<notin> set (args e)"
    and "validateMod e version modFilename m = None"
    and "m ''download'' = Some d"
    and "lookupHash e d st = (None, sa)"
    and "fetchPackage e d (qmodPathOf e m version) sa = (Some h, sb)"
    and "files sb (qmodPathOf e m version) = Some b"
  shows "(loadAsync e b = None \<longrightarrow>
           (\<exists>sc st1.
              processQmod e m version st =
                Inr (\<lparr>messages = [d], errors = [''Reading archive''], warnings = [], hash = Some h\<rparr>,
                     m, sc)
              \<and> files sc = (files sb)(qmodPathOf e m version := None)
              \<and> trace sc = trace sb @ [LoadArchive (qmodPathOf e m version),
                                        Unlink (qmodPathOf e m version)]
              \<and> processModFile e version (modFilename, m) st = Inr st1
              \<and> allMods st1 = allMods st \<and> files st1 (qmodPathOf e m version) = None))
       \<and> (\<forall>zp. loadAsync e b = Some zp \<and> zp ''bmbfmod.json'' = None \<and> zp ''mod.json'' = None \<longrightarrow>
           (\<exists>sc st1.
              processQmod e m version st =
                Inr (\<lparr>messages = [d], errors = [''No info json''], warnings = [], hash = Some h\<rparr>,
                     m, sc)
              \<and> files sc = files sb
              \<and> trace sc = trace sb @ [LoadArchive (qmodPathOf e m version)]
              \<and> processModFile e version (modFilename, m) st = Inr st1
              \<and> allMods st1 = allMods st \<and> files st1 (qmodPathOf e m version) = Some b))"
proof -
  let ?p = "qmodPathOf e m version"
  let ?s = "sb\<lparr>hashes := (hashes sb)(d \<mapsto> h)\<rparr>"
  from validateMod_NoneD[OF assms(2)] assms(3)
  have t: "truthy (m ''id'')" "truthy (m ''version'')" "d \<noteq> []"
    by (auto dest: nonblank_truthy)
  note run = processQmod_inspect[OF assms(1) assms(3) t(3) t(1) t(2) assms(4) assms(5) assms(6)]
  have am: "allMods sb = allMods st"
    using lookupHash_frame[OF assms(4)] fetchPackage_frame[OF assms(5)] by simp
  show ?thesis
  proof (intro conjI impI allI)
    assume c: "loadAsync e b = None"
    let ?sc = "?s\<lparr>trace := trace sb @ [LoadArchive ?p],
                   files := (files sb)(?p := None),
                   trace := trace sb @ [LoadArchive ?p, Unlink ?p]\<rparr>"
    have i: "inspectArchive e ?p ?s = Inl (''Reading archive'', ?sc)"
      using c assms(6) by (simp add: inspectArchive_def Let_def)
    have q: "processQmod e m version st =
        Inr (\<lparr>messages = [d], errors = [''Reading archive''], warnings = [], hash = Some h\<rparr>, m, ?sc)"
      unfolding run i by simp
    have "processModFile e version (modFilename, m) st =
        Inr (admit e version \<lparr>messages = [d], errors = [''Reading archive''], warnings = [], hash = Some h\<rparr>
              (uniformMod e m) ?sc)"
      using assms(2) q by (rule processModFile_ok)
    with q am show "\<exists>sc st1.
              processQmod e m version st =
                Inr (\<lparr>messages = [d], errors = [''Reading archive''], warnings = [], hash = Some h\<rparr>,
                     m, sc)
              \<and> files sc = (files sb)(qmodPathOf e m version := None)
              \<and> trace sc = trace sb @ [LoadArchive (qmodPathOf e m version),
                                        Unlink (qmodPathOf e m version)]
              \<and> processModFile e version (modFilename, m) st = Inr st1
              \<and> allMods st1 = allMods st \<and> files st1 (qmodPathOf e m version) = None"
      by (simp add: admit_allMods_err admit_files)
  next
    fix zp
    assume c: "loadAsync e b = Some zp \<and> zp ''bmbfmod.json'' = None \<and> zp ''mod.json'' = None"
    let ?sc = "?s\<lparr>trace := trace sb @ [LoadArchive ?p]\<rparr>"
    have i: "inspectArchive e ?p ?s = Inl (''No info json'', ?sc)"
      using c assms(6) by (simp add: inspectArchive_def Let_def)
    have q: "processQmod e m version st =
        Inr (\<lparr>messages = [d], errors = [''No info json''], warnings = [], hash = Some h\<rparr>, m, ?sc)"
      unfolding run i by simp
    have "processModFile e version (modFilename, m) st =
        Inr (admit e version \<lparr>messages = [d], errors = [''No info json''], warnings = [], hash = Some h\<rparr>
              (uniformMod e m) ?sc)"
      using assms(2) q by (rule processModFile_ok)
    with q am assms(6) show "\<exists>sc st1.
              processQmod e m version st =
                Inr (\<lparr>messages = [d], errors = [''No info json''], warnings = [], hash = Some h\<rparr>,
                     m, sc)
              \<and> files sc = files sb
              \<and> trace sc = trace sb @ [LoadArchive (qmodPathOf e m version)]
              \<and> processModFile e version (modFilename, m) st = Inr st1
              \<and> allMods st1 = allMods st \<and> files st1 (qmodPathOf e m version) = Some b"
      by (simp add: admit_allMods_err admit_files)
  qed
qed

text \<open>
  Both cases for mod \<open>foo\<close>: a download that is not an archive, and a download that
  opens as an archive holding only \<open>readme.txt\<close>.
\<close>

theorem archive_failure_policy_witness:
  "validateMod ex_env_corrupt ''1.0'' ''foo-1.0.json'' ex_mod = None
   \<and> lookupHash ex_env_corrupt ''u'' ex_world = (None, ex_world)
   \<and> fetchPackage ex_env_corrupt ''u'' ex_qmod ex_world = (Some ''abc123'', ex_world_fetched)
   \<and> files ex_world_fetched ex_qmod = Some [0]
   \<and> loadAsync ex_env_corrupt [0] = None
   \<and> (\<exists>sc st1.
        processQmod ex_env_corrupt ex_mod ''1.0'' ex_world =
          Inr (\<lparr>messages = [''u''], errors = [''Reading archive''], warnings = [],
                hash = Some ''abc123''\<rparr>, ex_mod, sc)
        \<and> trace sc = [DownloadFile ''u'' ex_qmod, LoadArchive ex_qmod, Unlink ex_qmod]
        \<and> processModFile ex_env_corrupt ''1.0'' (''foo-1.0.json'', ex_mod) ex_world = Inr st1
        \<and> allMods st1 = allMods ex_world \<and> files st1 ex_qmod = None)
   \<and> loadAsync ex_env_nomanifest [0] = Some ex_zip_empty
   \<and> ex_zip_empty ''bmbfmod.json'' = None \<and> ex_zip_empty ''mod.json'' = None
   \<and> (\<exists>sc st1.
        processQmod ex_env_nomanifest ex_mod ''1.0'' ex_world =
          Inr (\<lparr>messages = [''u''], errors = [''No info json''], warnings = [],
                hash = Some ''abc123''\<rparr>, ex_mod, sc)
        \<and> trace sc = [DownloadFile ''u'' ex_qmod, LoadArchive ex_qmod]
        \<and> processModFile ex_env_nomanifest ''1.0'' (''foo-1.0.json'', ex_mod) ex_world = Inr st1
        \<and> allMods st1 = allMods ex_world \<and> files st1 ex_qmod = Some [0])"
proof -
  have q: "qmodPathOf ex_env_corrupt ex_mod ''1.0'' = ex_qmod"
    "qmodPathOf ex_env_nomanifest ex_mod ''1.0'' = ex_qmod"
    by (simp_all add: qmodPathOf_def ex_env_corrupt_def ex_env_nomanifest_def ex_defs ex_qmod_def)
  have s: "''--skipHashes'' \<notin> set (args ex_env_corrupt)"
    "''--skipHashes'' \<notin> set (args ex_env_nomanifest)"
    by (simp_all add: ex_env_corrupt_def ex_env_nomanifest_def ex_env_def)
  have v: "validateMod ex_env_corrupt ''1.0'' ''foo-1.0.json'' ex_mod = None"
    "validateMod ex_env_nomanifest ''1.0'' ''foo-1.0.json'' ex_mod = None"
    by code_simp+
  have d: "ex_mod ''download'' = Some ''u''"
    by (simp add: ex_mod_def)
  have l: "lookupHash ex_env_corrupt ''u'' ex_world = (None, ex_world)"
    "lookupHash ex_env_nomanifest ''u'' ex_world = (None, ex_world)"
    by (simp_all add: lookupHash_def ex_world_def)
  have f: "fetchPackage ex_env_corrupt ''u'' ex_qmod ex_world = (Some ''abc123'', ex_world_fetched)"
    "fetchPackage ex_env_nomanifest ''u'' ex_qmod ex_world = (Some ''abc123'', ex_world_fetched)"
    by (simp_all add: fetchPackage_def ex_world_fetched_def ex_world_def ex_env_corrupt_def
        ex_env_nomanifest_def ex_env_def)
  have b: "files ex_world_fetched ex_qmod = Some [0]"
    by (simp add: ex_world_fetched_def)
  have c: "loadAsync ex_env_corrupt [0] = None"
    by (simp add: ex_env_corrupt_def ex_env_def)
  have z: "loadAsync ex_env_nomanifest [0] = Some ex_zip_empty"
    "ex_zip_empty ''bmbfmod.json'' = None" "ex_zip_empty ''mod.json'' = None"
    by (simp_all add: ex_env_nomanifest_def ex_zip_empty_def)
  have t: "trace ex_world_fetched = [DownloadFile ''u'' ex_qmod]"
    "allMods ex_world_fetched = allMods ex_world"
    by (simp_all add: ex_world_fetched_def)
  from archive_failure_policy [of ex_env_corrupt "''1.0''" "''foo-1.0.json''" ex_mod "''u''"
      ex_world ex_world "''abc123''" ex_world_fetched "[0]"] s(1) v(1) d l(1) f(1) b c
  have 1: "\<exists>sc st1.
        processQmod ex_env_corrupt ex_mod ''1.0'' ex_world =
          Inr (\<lparr>messages = [''u''], errors = [''Reading archive''], warnings = [],
                hash = Some ''abc123''\<rparr>, ex_mod, sc)
        \<and> trace sc = [DownloadFile ''u'' ex_qmod, LoadArchive ex_qmod, Unlink ex_qmod]
        \<and> processModFile ex_env_corrupt ''1.0'' (''foo-1.0.json'', ex_mod) ex_world = Inr st1
        \<and> allMods st1 = allMods ex_world \<and> files st1 ex_qmod = None"
    by (auto simp: q t)
  from archive_failure_policy [of ex_env_nomanifest "''1.0''" "''foo-1.0.json''" ex_mod "''u''"
      ex_world ex_world "''abc123''" ex_world_fetched "[0]"] s(2) v(2) d l(2) f(2) b z
  have 2: "\<exists>sc st1.
        processQmod ex_env_nomanifest ex_mod ''1.0'' ex_world =
          Inr (\<lparr>messages = [''u''], errors = [''No info json''], warnings = [],
                hash = Some ''abc123''\<rparr>, ex_mod, sc)
        \<and> trace sc = [DownloadFile ''u'' ex_qmod, LoadArchive ex_qmod]
        \<and> processModFile ex_env_nomanifest ''1.0'' (''foo-1.0.json'', ex_mod) ex_world = Inr st1
        \<and> allMods st1 = allMods ex_world \<and> files st1 ex_qmod = Some [0]"
    by (auto simp: q t)
  from v(1) l(1) f(1) b c 1 z 2 show ?thesis by blast
qed

text \<open>
  C6 (cover filename), as amended. The declared cover filename is the first of
  \<open>coverImageFilename\<close>, \<open>coverImage\<close> that is not empty. When that value is absent,
  blank or \<open>undefined\<close>, the inspection of the archive (lines 139--176) looks for no
  cover entry and emits no error and no warning: \<^verbatim>\<open>processQmod\<close> goes on to the mod's own
  cover url with an outcome that has no warning, and returns that outcome, with the mod
  record untouched, when the mod has no cover url. When a filename is declared and the
  archive has no entry of exactly that name, the inspection finds no cover entry and the
  first warning of the outcome of \<^verbatim>\<open>processQmod\<close> is \<open>Cover file not found\<close> with the
  joined path; it is the only one when the mod has no cover url. In every case the outcome
  has no error and the mod is appended to the catalog.
\<close>

theorem cover_filename_resolution:
  assumes "''--skipHashes'' \<notin> set (args e)"
    and "validateMod e version modFilename m = None"
    and "m ''download'' = Some d"
    and "lookupHash e d st = (None, sa)"
    and "fetchPackage e d (qmodPathOf e m version) sa = (Some h, sb)"
    and "files sb (qmodPathOf e m version) = Some b"
    and "loadAsync e b = Some zp"
    and "(case zp ''bmbfmod.json'' of Some f \<Rightarrow> Some f | None \<Rightarrow> zp ''mod.json'') = Some infoFile"
    and "entryData infoFile = Some txt"
    and "parseInfo e txt = Some json"
  shows "declaredCover json =
           (if truthy (coverImageFilename json) then coverImageFilename json else coverImage json)
       \<and> (isNullOrWhitespace (declaredCover json) \<or> declaredCover json = Some ''undefined'' \<longrightarrow>
            inspectArchive e (qmodPathOf e m version) (sb\<lparr>hashes := (hashes sb)(d \<mapsto> h)\<rparr>) =
              Inr (None, [],
                   sb\<lparr>hashes := (hashes sb)(d \<mapsto> h),
                      trace := trace sb @ [LoadArchive (qmodPathOf e m version)]\<rparr>)
            \<and> processQmod e m version st =
                Inr (resolveCover e (coverFilename e h) None m
                       \<lparr>messages = [d], errors = [], warnings = [], hash = Some h\<rparr>
                       (sb\<lparr>hashes := (hashes sb)(d \<mapsto> h),
                           trace := trace sb @ [LoadArchive (qmodPathOf e m version)]\<rparr>))
            \<and> (\<not> truthy (m ''cover'') \<longrightarrow>
                 processQmod e m version st =
                   Inr (\<lparr>messages = [d], errors = [], warnings = [], hash = Some h\<rparr>, m,
                        sb\<lparr>hashes := (hashes sb)(d \<mapsto> h),
                           trace := trace sb @ [LoadArchive (qmodPathOf e m version)]\<rparr>)))
       \<and> (\<forall>n. declaredCover json = Some n \<and> \<not> isNullOrWhitespace (Some n) \<and> n \<noteq> ''undefined''
               \<and> zp n = None \<longrightarrow>
            inspectArchive e (qmodPathOf e m version) (sb\<lparr>hashes := (hashes sb)(d \<mapsto> h)\<rparr>) =
              Inr (None,
                   [''Cover file not found: '' @
                      path_join (drop (length (qmodsPath e) + 1) (qmodPathOf e m version)) n],
                   sb\<lparr>hashes := (hashes sb)(d \<mapsto> h),
                      trace := trace sb @ [LoadArchive (qmodPathOf e m version)]\<rparr>)
            \<and> (\<exists>res m1 sc extra.
                  processQmod e m version st = Inr (res, m1, sc) \<and> errors res = []
                  \<and> warnings res =
                      (''Cover file not found: '' @
                         path_join (drop (length (qmodsPath e) + 1) (qmodPathOf e m version)) n)
                      # extra
                  \<and> (\<not> truthy (m ''cover'') \<longrightarrow> extra = [] \<and> m1 = m)))
       \<and> (\<exists>res m1 sc st1.
            processQmod e m version st = Inr (res, m1, sc) \<and> errors res = []
            \<and> processModFile e version (modFilename, m) st = Inr st1
            \<and> length (modsOf st1 version) = Suc (length (modsOf st version)))"
proof -
  let ?p = "qmodPathOf e m version"
  let ?s = "sb\<lparr>hashes := (hashes sb)(d \<mapsto> h)\<rparr>"
  let ?s1 = "sb\<lparr>hashes := (hashes sb)(d \<mapsto> h), trace := trace sb @ [LoadArchive ?p]\<rparr>"
  let ?w = "\<lambda>n. ''Cover file not found: '' @ path_join (drop (length (qmodsPath e) + 1) ?p) n"
  obtain cf w where fc: "findCover e ?p zp (declaredCover json) = (cf, w)"
    by (cases "findCover e ?p zp (declaredCover json)")
  have i: "inspectArchive e ?p ?s = Inr (cf, w, ?s1)"
    using assms(6-10) fc by (simp add: inspectArchive_def Let_def)
  have 1: "declaredCover json =
      (if truthy (coverImageFilename json) then coverImageFilename json else coverImage json)"
    by (simp add: declaredCover_def js_or_def)
  have 2: "cf = None \<and> w = []"
    if "isNullOrWhitespace (declaredCover json) \<or> declaredCover json = Some ''undefined''"
    using that fc by (auto simp: findCover_def)
  have 3: "cf = None \<and> w = [?w n]"
    if "declaredCover json = Some n \<and> \<not> isNullOrWhitespace (Some n) \<and> n \<noteq> ''undefined''
               \<and> zp n = None" for n
    using that fc by (auto simp: findCover_def)
  from validateMod_NoneD[OF assms(2)] assms(3)
  have t: "truthy (m ''id'')" "truthy (m ''version'')" "d \<noteq> []"
    by (auto dest: nonblank_truthy)
  let ?out = "\<lparr>messages = [d], errors = [], warnings = w, hash = Some h\<rparr>"
  have q0: "processQmod e m version st = Inr (resolveCover e (coverFilename e h) cf m ?out ?s1)"
    using processQmod_inspect[OF assms(1) assms(3) t(3) t(1) t(2) assms(4) assms(5) assms(6)] i
    by simp
  obtain res m1 sc where rc: "resolveCover e (coverFilename e h) cf m ?out ?s1 = (res, m1, sc)"
    by (cases "resolveCover e (coverFilename e h) cf m ?out ?s1")
  have q: "processQmod e m version st = Inr (res, m1, sc)"
    using q0 rc by simp
  from resolveCover_frame[OF rc] have er: "errors res = []"
    by simp
  from resolveCover_warnings[OF rc] obtain extra where ex: "warnings res = w @ extra"
    by auto
  have nc: "res = ?out \<and> m1 = m \<and> sc = ?s1" if "cf = None" "\<not> truthy (m ''cover'')"
  proof -
    have "resolveCover e (coverFilename e h) None m ?out ?s1 = (?out, m, ?s1)"
      using that(2) by (rule resolveCover_none)
    with rc that(1) have "(res, m1, sc) = (?out, m, ?s1)"
      by metis
    then show ?thesis
      by blast
  qed
  have st: "processModFile e version (modFilename, m) st =
      Inr (admit e version res (uniformMod e m1) sc)"
    using assms(2) q by (rule processModFile_ok)
  have "length (modsOf (admit e version res (uniformMod e m1) sc) version)
      = Suc (length (modsOf st version))"
    using er processQmod_frame(1)[OF q] by (simp add: admit_allMods_ok modsOf_def)
  with q er st have 4: "\<exists>res m1 sc st1.
            processQmod e m version st = Inr (res, m1, sc) \<and> errors res = []
            \<and> processModFile e version (modFilename, m) st = Inr st1
            \<and> length (modsOf st1 version) = Suc (length (modsOf st version))"
    by blast
  have i2: "inspectArchive e ?p ?s = Inr (None, [], ?s1)
      \<and> processQmod e m version st =
          Inr (resolveCover e (coverFilename e h) None m
                 \<lparr>messages = [d], errors = [], warnings = [], hash = Some h\<rparr> ?s1)
      \<and> (\<not> truthy (m ''cover'') \<longrightarrow>
           processQmod e m version st =
             Inr (\<lparr>messages = [d], errors = [], warnings = [], hash = Some h\<rparr>, m, ?s1))"
    if b: "isNullOrWhitespace (declaredCover json) \<or> declaredCover json = Some ''undefined''"
  proof -
    from 2[OF b] have c: "cf = None" "w = []"
      by simp_all
    from nc[OF c(1)] q c(2)
    have "\<not> truthy (m ''cover'') \<longrightarrow>
           processQmod e m version st =
             Inr (\<lparr>messages = [d], errors = [], warnings = [], hash = Some h\<rparr>, m, ?s1)"
      by simp
    with i q0 c show ?thesis
      by simp
  qed
  have i3: "inspectArchive e ?p ?s = Inr (None, [?w n], ?s1)
      \<and> (\<exists>res m1 sc extra.
            processQmod e m version st = Inr (res, m1, sc) \<and> errors res = []
            \<and> warnings res = ?w n # extra
            \<and> (\<not> truthy (m ''cover'') \<longrightarrow> extra = [] \<and> m1 = m))"
    if b: "declaredCover json = Some n \<and> \<not> isNullOrWhitespace (Some n) \<and> n \<noteq> ''undefined''
               \<and> zp n = None" for n
  proof -
    from 3[OF b] have c: "cf = None" "w = [?w n]"
      by simp_all
    from ex c(2) have w: "warnings res = ?w n # extra"
      by simp
    have "extra = [] \<and> m1 = m" if "\<not> truthy (m ''cover'')"
      using nc[OF c(1) that] w c(2) by simp
    with q er w have "\<exists>res m1 sc extra.
            processQmod e m version st = Inr (res, m1, sc) \<and> errors res = []
            \<and> warnings res = ?w n # extra
            \<and> (\<not> truthy (m ''cover'') \<longrightarrow> extra = [] \<and> m1 = m)"
      by blast
    with i c show ?thesis
      by simp
  qed
  from 1 i2 i3 4 show ?thesis
    by blast
qed

text \<open>
  A manifest that declares no cover, and one that declares \<open>./cover.png\<close> for an
  archive that has no such entry; the mod has no cover url of its own.
\<close>

theorem cover_filename_resolution_witness:
  "validateMod ex_env_good ''1.0'' ''foo-1.0.json'' ex_mod = None
   \<and> lookupHash ex_env_good ''u'' ex_world = (None, ex_world)
   \<and> fetchPackage ex_env_good ''u'' ex_qmod ex_world = (Some ''abc123'', ex_world_fetched)
   \<and> loadAsync ex_env_good [0] = Some ex_zip_manifest
   \<and> parseInfo ex_env_good [1] = Some \<lparr>coverImageFilename = None, coverImage = None\<rparr>
   \<and> isNullOrWhitespace (declaredCover \<lparr>coverImageFilename = None, coverImage = None\<rparr>)
   \<and> \<not> truthy (ex_mod ''cover'')
   \<and> inspectArchive ex_env_good ex_qmod
        (ex_world_fetched\<lparr>hashes := (hashes ex_world_fetched)(''u'' \<mapsto> ''abc123'')\<rparr>) =
        Inr (None, [],
             ex_world_fetched\<lparr>hashes := (hashes ex_world_fetched)(''u'' \<mapsto> ''abc123''),
                              trace := trace ex_world_fetched @ [LoadArchive ex_qmod]\<rparr>)
   \<and> processQmod ex_env_good ex_mod ''1.0'' ex_world =
        Inr (\<lparr>messages = [''u''], errors = [], warnings = [], hash = Some ''abc123''\<rparr>, ex_mod,
             ex_world_fetched\<lparr>hashes := (hashes ex_world_fetched)(''u'' \<mapsto> ''abc123''),
                              trace := trace ex_world_fetched @ [LoadArchive ex_qmod]\<rparr>)
   \<and> (\<exists>st1.
        processModFile ex_env_good ''1.0'' (''foo-1.0.json'', ex_mod) ex_world = Inr st1
        \<and> length (modsOf st1 ''1.0'') = Suc (length (modsOf ex_world ''1.0'')))
   \<and> parseInfo ex_env_missing [1]
        = Some \<lparr>coverImageFilename = Some ''./cover.png'', coverImage = None\<rparr>
   \<and> declaredCover \<lparr>coverImageFilename = Some ''./cover.png'', coverImage = None\<rparr>
        = Some ''./cover.png''
   \<and> ex_zip_manifest ''./cover.png'' = None
   \<and> inspectArchive ex_env_missing ex_qmod
        (ex_world_fetched\<lparr>hashes := (hashes ex_world_fetched)(''u'' \<mapsto> ''abc123'')\<rparr>) =
        Inr (None, [''Cover file not found: 1.0/foo-1.0.qmod/cover.png''],
             ex_world_fetched\<lparr>hashes := (hashes ex_world_fetched)(''u'' \<mapsto> ''abc123''),
                              trace := trace ex_world_fetched @ [LoadArchive ex_qmod]\<rparr>)
   \<and> (\<exists>res sc st1.
        processQmod ex_env_missing ex_mod ''1.0'' ex_world = Inr (res, ex_mod, sc)
        \<and> errors res = []
        \<and> warnings res = [''Cover file not found: 1.0/foo-1.0.qmod/cover.png'']
        \<and> processModFile ex_env_missing ''1.0'' (''foo-1.0.json'', ex_mod) ex_world = Inr st1
        \<and> length (modsOf st1 ''1.0'') = Suc (length (modsOf ex_world ''1.0'')))"
proof -
  let ?j0 = "\<lparr>coverImageFilename = None, coverImage = None\<rparr>"
  let ?j1 = "\<lparr>coverImageFilename = Some ''./cover.png'', coverImage = None\<rparr>"
  let ?info = "JSZipObject ''mod.json'' (Some [1])"
  let ?s1 = "ex_world_fetched\<lparr>hashes := (hashes ex_world_fetched)(''u'' \<mapsto> ''abc123''),
                              trace := trace ex_world_fetched @ [LoadArchive ex_qmod]\<rparr>"
  have q: "qmodPathOf ex_env_good ex_mod ''1.0'' = ex_qmod"
    "qmodPathOf ex_env_missing ex_mod ''1.0'' = ex_qmod"
    by (simp_all add: qmodPathOf_def ex_env_good_def ex_env_missing_def ex_defs ex_qmod_def)
  have s: "''--skipHashes'' \<notin> set (args ex_env_good)"
    "''--skipHashes'' \<notin> set (args ex_env_missing)"
    by (simp_all add: ex_env_good_def ex_env_missing_def ex_env_def)
  have v: "validateMod ex_env_good ''1.0'' ''foo-1.0.json'' ex_mod = None"
    "validateMod ex_env_missing ''1.0'' ''foo-1.0.json'' ex_mod = None"
    by code_simp+
  have d: "ex_mod ''download'' = Some ''u''" and nc: "\<not> truthy (ex_mod ''cover'')"
    by (simp_all add: ex_mod_def)
  have l: "lookupHash ex_env_good ''u'' ex_world = (None, ex_world)"
    "lookupHash ex_env_missing ''u'' ex_world = (None, ex_world)"
    by (simp_all add: lookupHash_def ex_world_def)
  have f: "fetchPackage ex_env_good ''u'' ex_qmod ex_world = (Some ''abc123'', ex_world_fetched)"
    "fetchPackage ex_env_missing ''u'' ex_qmod ex_world = (Some ''abc123'', ex_world_fetched)"
    by (simp_all add: fetchPackage_def ex_world_fetched_def ex_world_def ex_env_good_def
        ex_env_missing_def ex_env_def)
  have b: "files ex_world_fetched ex_qmod = Some [0]"
    by (simp add: ex_world_fetched_def)
  have z: "loadAsync ex_env_good [0] = Some ex_zip_manifest"
    "loadAsync ex_env_missing [0] = Some ex_zip_manifest"
    by (simp_all add: ex_env_good_def ex_env_missing_def)
  have i: "(case ex_zip_manifest ''bmbfmod.json'' of Some f \<Rightarrow> Some f
            | None \<Rightarrow> ex_zip_manifest ''mod.json'') = Some ?info"
    "entryData ?info = Some [1]"
    by (simp_all add: ex_zip_manifest_def)
  have j: "parseInfo ex_env_good [1] = Some ?j0" "parseInfo ex_env_missing [1] = Some ?j1"
    by (simp_all add: ex_env_good_def ex_env_missing_def)
  have c0: "isNullOrWhitespace (declaredCover ?j0)"
    by (simp add: declaredCover_def str_defs)
  have c1: "declaredCover ?j1 = Some ''./cover.png''" "\<not> isNullOrWhitespace (Some ''./cover.png'')"
    "''./cover.png'' \<noteq> ''undefined''" "ex_zip_manifest ''./cover.png'' = None"
    by (simp_all add: declaredCover_def str_defs ex_zip_manifest_def)
  have w: "''Cover file not found: '' @
        path_join (drop (length (qmodsPath ex_env_missing) + 1) ex_qmod) ''./cover.png''
      = ''Cover file not found: 1.0/foo-1.0.qmod/cover.png''"
    by code_simp
  note a = cover_filename_resolution [of ex_env_good "''1.0''" "''foo-1.0.json''" ex_mod "''u''"
      ex_world ex_world "''abc123''" ex_world_fetched "[0]" ex_zip_manifest ?info "[1]" ?j0,
      unfolded q, OF s(1) v(1) d l(1) f(1) b z(1) i j(1)]
  note m = cover_filename_resolution [of ex_env_missing "''1.0''" "''foo-1.0.json''" ex_mod "''u''"
      ex_world ex_world "''abc123''" ex_world_fetched "[0]" ex_zip_manifest ?info "[1]" ?j1,
      unfolded q, OF s(2) v(2) d l(2) f(2) b z(2) i j(2)]
  from a c0 have a1: "inspectArchive ex_env_good ex_qmod
        (ex_world_fetched\<lparr>hashes := (hashes ex_world_fetched)(''u'' \<mapsto> ''abc123'')\<rparr>) =
        Inr (None, [], ?s1)"
    by blast
  from a c0 nc have a2: "processQmod ex_env_good ex_mod ''1.0'' ex_world =
        Inr (\<lparr>messages = [''u''], errors = [], warnings = [], hash = Some ''abc123''\<rparr>, ex_mod, ?s1)"
    by blast
  from a obtain res0 m0 sc0 st0 where
    "processQmod ex_env_good ex_mod ''1.0'' ex_world = Inr (res0, m0, sc0)"
    "processModFile ex_env_good ''1.0'' (''foo-1.0.json'', ex_mod) ex_world = Inr st0"
    "length (modsOf st0 ''1.0'') = Suc (length (modsOf ex_world ''1.0''))"
    by blast
  then have a3: "\<exists>st1.
        processModFile ex_env_good ''1.0'' (''foo-1.0.json'', ex_mod) ex_world = Inr st1
        \<and> length (modsOf st1 ''1.0'') = Suc (length (modsOf ex_world ''1.0''))"
    by blast
  have c: "declaredCover ?j1 = Some ''./cover.png'' \<and> \<not> isNullOrWhitespace (Some ''./cover.png'')
      \<and> ''./cover.png'' \<noteq> ''undefined'' \<and> ex_zip_manifest ''./cover.png'' = None"
    using c1 by (intro conjI)
  note de = m [THEN conjunct2, THEN conjunct2, THEN conjunct1, THEN spec, THEN mp, OF c,
      unfolded w]
  from de have m1: "inspectArchive ex_env_missing ex_qmod
        (ex_world_fetched\<lparr>hashes := (hashes ex_world_fetched)(''u'' \<mapsto> ''abc123'')\<rparr>) =
        Inr (None, [''Cover file not found: 1.0/foo-1.0.qmod/cover.png''], ?s1)"
    by (rule conjunct1)
  from de [THEN conjunct2] nc obtain res sc where
    r: "processQmod ex_env_missing ex_mod ''1.0'' ex_world = Inr (res, ex_mod, sc)"
    "errors res = []"
    "warnings res = [''Cover file not found: 1.0/foo-1.0.qmod/cover.png'']"
    by blast
  from m obtain res' m' sc' st' where
    "processQmod ex_env_missing ex_mod ''1.0'' ex_world = Inr (res', m', sc')"
    "processModFile ex_env_missing ''1.0'' (''foo-1.0.json'', ex_mod) ex_world = Inr st'"
    "length (modsOf st' ''1.0'') = Suc (length (modsOf ex_world ''1.0''))"
    by blast
  with r have m2: "\<exists>res sc st1.
        processQmod ex_env_missing ex_mod ''1.0'' ex_world = Inr (res, ex_mod, sc)
        \<and> errors res = []
        \<and> warnings res = [''Cover file not found: 1.0/foo-1.0.qmod/cover.png'']
        \<and> processModFile ex_env_missing ''1.0'' (''foo-1.0.json'', ex_mod) ex_world = Inr st1
        \<and> length (modsOf st1 ''1.0'') = Suc (length (modsOf ex_world ''1.0''))"
    by blast
  from v(1) l(1) f(1) z(1) j(1) c0 nc a1 a2 a3 j(2) c1(1) c1(4) m1 m2 show ?thesis
    by blast
qed

text \<open>
  C6 as stated fails for a manifest whose first field is blank but not empty and whose
  second field names the cover: the first non-blank field is the second one, and the
  archive has the entry it names, but the code takes the first field and looks for no
  cover; the admitted record has no cover, where the same archive with only the second
  field set gets one. And with no cover declared the outcome can still carry a warning:
  the mod's own cover url is fetched then, and the fetch can fail.
\<close>

theorem blank_first_field_wins:
  "spec_declaredCover ex_manifest_blank = Some ''cover.png''
   \<and> declaredCover ex_manifest_blank = Some ''  ''
   \<and> ex_zip_cover ''cover.png'' = Some (JSZipObject ''cover.png'' (Some [9]))
   \<and> findCover ex_env_blank ex_qmod ex_zip_cover (declaredCover ex_manifest_blank) = (None, [])
   \<and> findCover ex_env_blank ex_qmod ex_zip_cover (spec_declaredCover ex_manifest_blank)
        = (Some (JSZipObject ''cover.png'' (Some [9])), [])
   \<and> catalogAfter (combine ex_env_blank ex_run_foo ex_world) ''1.0'' ''id'' = [Some ''foo'']
   \<and> catalogAfter (combine ex_env_blank ex_run_foo ex_world) ''1.0'' ''cover'' = [None]
   \<and> catalogAfter (combine ex_env_second ex_run_foo ex_world) ''1.0'' ''cover''
        = [Some ''./covers/abc123.png'']
   \<and> parseInfo ex_env_fetchfail [1] = Some \<lparr>coverImageFilename = None, coverImage = None\<rparr>
   \<and> declaredCover \<lparr>coverImageFilename = None, coverImage = None\<rparr> = None
   \<and> errorsOf (processQmod ex_env_fetchfail ex_mod_cover ''1.0'' ex_world_init) = Some []
   \<and> warningsOf (processQmod ex_env_fetchfail ex_mod_cover ''1.0'' ex_world_init)
        = Some [''Error fetching cover buffer'']"
  by code_simp

text \<open>
  C7 (cover idempotence). Whenever cover bytes are obtained, from the archive entry or from
  the mod's cover url (\<open>fetchCover\<close> yields a buffer), and a file already exists at the
  content-addressed path \<open>{hash}.png\<close>, nothing is decoded, re-encoded or written: the
  state, with its files and its record of calls, is the one in which the bytes were
  obtained, and the mod's cover is the url of that file. The \<^verbatim>\<open>sharp\<close> chain runs, and
  is the next call made, when no file exists at that path. The hash is a digest, so it
  holds no path separator.
\<close>

theorem cover_idempotence:
  assumes "fetchCover e coverFile m out st = (Some coverBuffer, out1, st1)"
    and "CHR ''/'' \<notin> set h"
  shows "(existsSync st1 (coverFilename e h) \<longrightarrow>
            resolveCover e (coverFilename e h) coverFile m out st =
              (out1, m(''cover'' \<mapsto> urlBase (args e) @ ''/covers/'' @ h @ ''.png''), st1))
       \<and> (\<not> existsSync st1 (coverFilename e h) \<longrightarrow>
            trace (snd (snd (resolveCover e (coverFilename e h) coverFile m out st))) =
              trace st1 @ [SharpToFile (coverFilename e h)])"
  using assms
  by (auto simp: resolveCover_def linkCover_def coverUrl_cover Let_def split: sum.splits)

text \<open>
  With \<open>covers/abc123.png\<close> on disk the cover is linked and nothing else happens;
  without it the image library is called.
\<close>

theorem cover_idempotence_witness:
  "fetchCover ex_env (Some (JSZipObject ''cover.png'' (Some [9]))) ex_mod output0 ex_world_cached
     = (Some [9], output0, ex_world_cached)
   \<and> existsSync ex_world_cached (coverFilename ex_env ''abc123'')
   \<and> resolveCover ex_env (coverFilename ex_env ''abc123'')
        (Some (JSZipObject ''cover.png'' (Some [9]))) ex_mod output0 ex_world_cached
     = (output0, ex_mod(''cover'' \<mapsto> ''./covers/abc123.png''), ex_world_cached)
   \<and> fetchCover ex_env (Some (JSZipObject ''cover.png'' (Some [9]))) ex_mod output0 ex_world
     = (Some [9], output0, ex_world)
   \<and> \<not> existsSync ex_world (coverFilename ex_env ''abc123'')
   \<and> trace (snd (snd (resolveCover ex_env (coverFilename ex_env ''abc123'')
        (Some (JSZipObject ''cover.png'' (Some [9]))) ex_mod output0 ex_world)))
     = [SharpToFile ''/r/covers/abc123.png'']"
proof -
  have f: "fetchCover ex_env (Some (JSZipObject ''cover.png'' (Some [9]))) ex_mod output0 st
      = (Some [9], output0, st)" for st
    by (simp add: fetchCover_def)
  have h: "CHR ''/'' \<notin> set ''abc123''"
    by simp
  have x: "existsSync ex_world_cached (coverFilename ex_env ''abc123'')"
    "\<not> existsSync ex_world (coverFilename ex_env ''abc123'')"
    by code_simp+
  have u: "urlBase (args ex_env) = ''.''" "trace ex_world = []"
    "coverFilename ex_env ''abc123'' = ''/r/covers/abc123.png''"
    by code_simp+
  from cover_idempotence [OF f h, of ex_world_cached] x(1)
  have 1: "resolveCover ex_env (coverFilename ex_env ''abc123'')
        (Some (JSZipObject ''cover.png'' (Some [9]))) ex_mod output0 ex_world_cached
     = (output0, ex_mod(''cover'' \<mapsto> ''./covers/abc123.png''), ex_world_cached)"
    by (simp add: u(1))
  from cover_idempotence [OF f h, of ex_world] x(2)
  have 2: "trace (snd (snd (resolveCover ex_env (coverFilename ex_env ''abc123'')
        (Some (JSZipObject ''cover.png'' (Some [9]))) ex_mod output0 ex_world)))
     = [SharpToFile ''/r/covers/abc123.png'']"
    by (simp add: u(2,3))
  from f x 1 2 show ?thesis
    by blast
qed

text \<open>
  C8 (field normalisation). For every mod that is processed, whatever the errors of its
  outcome, the loop builds the record \<^verbatim>\<open>uniformMod\<close> from the mod record and hands it to
  the admission step. Every recognised field of it is the trimmed value of that field of
  the mod record, and is null where the field is absent or blank. The mod record is the
  one \<^verbatim>\<open>processQmod\<close> was called with: the function reassigns no field but the cover.
\<close>

theorem field_normalization:
  assumes "validateMod e version modFilename m = None"
    and "processQmod e m version st = Inr (res, m1, sa)"
  shows "processModFile e version (modFilename, m) st =
           Inr (admit e version res (uniformMod e m1) sa)
       \<and> (\<forall>key. uniformMod e m1 key =
             (if key \<in> set (modKeys e) then
                (case m1 key of None \<Rightarrow> None
                 | Some s \<Rightarrow> if trim s = [] then None else Some (trim s))
              else None))
       \<and> (\<forall>key. key \<noteq> ''cover'' \<longrightarrow> m1 key = m key)"
proof -
  have "uniformMod e m1 key =
      (if key \<in> set (modKeys e) then
         (case m1 key of None \<Rightarrow> None
          | Some s \<Rightarrow> if trim s = [] then None else Some (trim s))
       else None)" for key
    by (simp add: uniformMod_apply uniformField_None uniformField_Some split: option.splits)
  with processModFile_ok[OF assms] processQmod_frame(2)[OF assms(2)] show ?thesis
    by blast
qed

text \<open>
  The record of \<open>foo\<close>, rejected here with \<open>Not found\<close>: the name has a blank at
  both ends, the author is the empty string, the source is absent.
\<close>

theorem field_normalization_witness:
  "validateMod ex_env ''1.0'' ''foo-1.0.json'' ex_mod = None
   \<and> ex_mod ''name'' = Some '' Foo '' \<and> ex_mod ''author'' = Some [] \<and> ex_mod ''source'' = None
   \<and> (\<exists>res m1 sa.
        processQmod ex_env ex_mod ''1.0'' ex_world = Inr (res, m1, sa)
        \<and> errors res = [''Not found'']
        \<and> processModFile ex_env ''1.0'' (''foo-1.0.json'', ex_mod) ex_world =
             Inr (admit ex_env ''1.0'' res (uniformMod ex_env m1) sa)
        \<and> uniformMod ex_env m1 ''name'' = Some ''Foo''
        \<and> uniformMod ex_env m1 ''author'' = None
        \<and> uniformMod ex_env m1 ''source'' = None)"
proof -
  have v: "validateMod ex_env ''1.0'' ''foo-1.0.json'' ex_mod = None"
    by code_simp
  have f: "ex_mod ''name'' = Some '' Foo ''" "ex_mod ''author'' = Some []" "ex_mod ''source'' = None"
    by (simp_all add: ex_mod_def)
  have k: "''name'' \<in> set (modKeys ex_env)" "''author'' \<in> set (modKeys ex_env)"
    "''source'' \<in> set (modKeys ex_env)"
    by (simp_all add: ex_env_def)
  have t: "trim '' Foo '' = ''Foo''" "trim [] = []"
    by (simp_all add: str_defs)
  have "errorsOf (processQmod ex_env ex_mod ''1.0'' ex_world) = Some [''Not found'']"
    by code_simp
  then obtain res m1 sa where
    q: "processQmod ex_env ex_mod ''1.0'' ex_world = Inr (res, m1, sa)"
    and e: "errors res = [''Not found'']"
    by (blast dest: errorsOf_SomeD)
  note n = field_normalization [OF v q]
  from n have s: "processModFile ex_env ''1.0'' (''foo-1.0.json'', ex_mod) ex_world =
             Inr (admit ex_env ''1.0'' res (uniformMod ex_env m1) sa)"
    by blast
  from n have m: "m1 ''name'' = ex_mod ''name''" "m1 ''author'' = ex_mod ''author''"
    "m1 ''source'' = ex_mod ''source''"
    by simp_all
  from n have u: "uniformMod ex_env m1 key =
             (if key \<in> set (modKeys ex_env) then
                (case m1 key of None \<Rightarrow> None
                 | Some s \<Rightarrow> if trim s = [] then None else Some (trim s))
              else None)" for key
    by blast
  have "uniformMod ex_env m1 ''name'' = Some ''Foo''" "uniformMod ex_env m1 ''author'' = None"
    "uniformMod ex_env m1 ''source'' = None"
    unfolding u m f using k t by simp_all
  with v f q e s show ?thesis
    by blast
qed

text \<open>
  C9 (fatal validation). For a mod file reached by the run, a storage path that differs
  from the canonical one, a blank or missing name, id, version or download, or a modloader
  outside the accepted set ends the run: the loop body calls \<^verbatim>\<open>exitWithError\<close> with the
  message of the check that failed, and the status is 1. The run ends in the very state
  in which the mod file was reached, with the same cache, files, catalog and record of
  calls: nothing of \<^verbatim>\<open>processQmod\<close> has happened for this mod, and the rest of the game
  version's files and the remaining game versions are not processed. A mod file with none
  of these defects never ends the run: its loop body completes, whatever errors
  \<^verbatim>\<open>processQmod\<close> reports.
\<close>

theorem fatal_validation:
  "(fatalDefect e version modFilename m \<longrightarrow>
      (\<exists>msg. validateMod e version modFilename m = Some msg
         \<and> processModFile e version (modFilename, m) st = Inl (Exit 1 msg, st)
         \<and> (\<forall>pre rest s0. processMods e version pre s0 = Inr st \<longrightarrow>
               processMods e version (pre @ (modFilename, m) # rest) s0 = Inl (Exit 1 msg, st))
         \<and> (\<forall>vs1 pre rest vs2 s0 s1.
               combine e vs1 s0 = Inr s1
               \<and> processMods e version pre
                    (s1\<lparr>allMods := (allMods s1)(version \<mapsto> modsOf s1 version)\<rparr>) = Inr st \<longrightarrow>
               combine e (vs1 @ (version, pre @ (modFilename, m) # rest) # vs2) s0
                 = Inl (Exit 1 msg, st))))
   \<and> (\<not> fatalDefect e version modFilename m \<longrightarrow>
        (\<exists>st1. processModFile e version (modFilename, m) st = Inr st1))"
proof (intro conjI impI)
  assume "fatalDefect e version modFilename m"
  then obtain msg where v: "validateMod e version modFilename m = Some msg"
    using validateMod_fatal[of e version modFilename m] by auto
  have 1: "processModFile e version (modFilename, m) st = Inl (Exit 1 msg, st)"
    using v by (rule processModFile_fatal)
  have 2: "processMods e version (pre @ (modFilename, m) # rest) s0 = Inl (Exit 1 msg, st)"
    if "processMods e version pre s0 = Inr st" for pre rest s0
    using that 1 by (simp add: processMods_append)
  have 3: "combine e (vs1 @ (version, pre @ (modFilename, m) # rest) # vs2) s0
      = Inl (Exit 1 msg, st)"
    if "combine e vs1 s0 = Inr s1"
      and "processMods e version pre
             (s1\<lparr>allMods := (allMods s1)(version \<mapsto> modsOf s1 version)\<rparr>) = Inr st"
    for vs1 pre rest vs2 s0 s1
    using that 2 by (simp add: combine_append)
  from v 1 2 3
  show "\<exists>msg. validateMod e version modFilename m = Some msg
         \<and> processModFile e version (modFilename, m) st = Inl (Exit 1 msg, st)
         \<and> (\<forall>pre rest s0. processMods e version pre s0 = Inr st \<longrightarrow>
               processMods e version (pre @ (modFilename, m) # rest) s0 = Inl (Exit 1 msg, st))
         \<and> (\<forall>vs1 pre rest vs2 s0 s1.
               combine e vs1 s0 = Inr s1
               \<and> processMods e version pre
                    (s1\<lparr>allMods := (allMods s1)(version \<mapsto> modsOf s1 version)\<rparr>) = Inr st \<longrightarrow>
               combine e (vs1 @ (version, pre @ (modFilename, m) # rest) # vs2) s0
                 = Inl (Exit 1 msg, st))"
    by blast
next
  assume "\<not> fatalDefect e version modFilename m"
  then have v: "validateMod e version modFilename m = None"
    using validateMod_fatal[of e version modFilename m] by auto
  from validateMod_NoneD[OF v] obtain res m1 st1 where
    "processQmod e m version st = Inr (res, m1, st1)"
    using processQmod_returns[of m e version st] by (blast dest: nonblank_truthy)
  with v show "\<exists>st1. processModFile e version (modFilename, m) st = Inr st1"
    by (simp add: processModFile_ok)
qed

text \<open>
  In an environment in which every download succeeds, \<open>foo\<close> is processed and the
  run ends at the next file, \<open>baz\<close> with a blank name: the state at the end is the one
  \<open>foo\<close> left, and its only calls are those made for \<open>foo\<close>, though processing
  \<open>baz\<close> would have downloaded its package. A file name that does not follow the
  convention and a modloader that is not accepted end the loop body likewise, in the
  state in which it started; the well-formed record of \<open>foo\<close> does not.
\<close>

theorem fatal_validation_witness:
  "fatalDefect ex_env_good ''1.0'' ''baz-1.0.json'' ex_mod_baz_unnamed
   \<and> (\<exists>st. processMods ex_env_good ''1.0'' [(''foo-1.0.json'', ex_mod)] ex_world_init = Inr st
        \<and> trace st = [DownloadFile ''u'' ex_qmod, LoadArchive ex_qmod]
        \<and> processModFile ex_env_good ''1.0'' (''baz-1.0.json'', ex_mod_baz_unnamed) st
            = Inl (Exit 1 ''Mod name not set'', st)
        \<and> combine ex_env_good
             [(''1.0'', [(''foo-1.0.json'', ex_mod), (''baz-1.0.json'', ex_mod_baz_unnamed)]),
              (''1.1'', [(''baz-1.0.json'', ex_mod_baz)])] ex_world
            = Inl (Exit 1 ''Mod name not set'', st))
   \<and> callsOf (processQmod ex_env_good ex_mod_baz_unnamed ''1.0'' ex_world_init)
        = [DownloadFile ''w'' ''/r/qmods/1.0/baz-1.0.qmod'',
           LoadArchive ''/r/qmods/1.0/baz-1.0.qmod'']
   \<and> fatalDefect ex_env ''1.0'' ''foo.json'' ex_mod
   \<and> processModFile ex_env ''1.0'' (''foo.json'', ex_mod) ex_world
       = Inl (Exit 1 (''Mod filename is not what it should be.  mods/1.0/foo.json'' @
                      '' should be mods/1.0/foo-1.0.json''), ex_world)
   \<and> fatalDefect ex_env ''1.0'' ''foo-1.0.json'' ex_mod_badloader
   \<and> processModFile ex_env ''1.0'' (''foo-1.0.json'', ex_mod_badloader) ex_world
       = Inl (Exit 1 ''Mod loader is invalid'', ex_world)
   \<and> \<not> fatalDefect ex_env ''1.0'' ''foo-1.0.json'' ex_mod
   \<and> (\<exists>st1. processModFile ex_env ''1.0'' (''foo-1.0.json'', ex_mod) ex_world = Inr st1)"
proof -
  have d: "fatalDefect ex_env_good ''1.0'' ''baz-1.0.json'' ex_mod_baz_unnamed"
    "fatalDefect ex_env ''1.0'' ''foo.json'' ex_mod"
    "fatalDefect ex_env ''1.0'' ''foo-1.0.json'' ex_mod_badloader"
    by code_simp+
  have n: "\<not> fatalDefect ex_env ''1.0'' ''foo-1.0.json'' ex_mod"
    by code_simp
  have v: "validateMod ex_env_good ''1.0'' ''baz-1.0.json'' ex_mod_baz_unnamed
      = Some ''Mod name not set''"
    "validateMod ex_env ''1.0'' ''foo.json'' ex_mod
      = Some (''Mod filename is not what it should be.  mods/1.0/foo.json'' @
              '' should be mods/1.0/foo-1.0.json'')"
    "validateMod ex_env ''1.0'' ''foo-1.0.json'' ex_mod_badloader = Some ''Mod loader is invalid''"
    "validateMod ex_env_good ''1.0'' ''foo-1.0.json'' ex_mod = None"
    by code_simp+
  have i: "ex_world\<lparr>allMods := (allMods ex_world)(''1.0'' \<mapsto> modsOf ex_world ''1.0'')\<rparr>
      = ex_world_init"
    by (simp add: ex_world_init_def ex_world_def modsOf_def)
  from v(4) obtain st where
    p: "processMods ex_env_good ''1.0'' [(''foo-1.0.json'', ex_mod)] ex_world_init = Inr st"
    using processMods_completes [of ex_env_good "''1.0''" "[(''foo-1.0.json'', ex_mod)]"
        ex_world_init]
    by auto
  have "callsAfter (processMods ex_env_good ''1.0'' [(''foo-1.0.json'', ex_mod)] ex_world_init)
      = [DownloadFile ''u'' ex_qmod, LoadArchive ex_qmod]"
    by code_simp
  with p have t: "trace st = [DownloadFile ''u'' ex_qmod, LoadArchive ex_qmod]"
    by (simp add: callsAfter_def)
  from fatal_validation [of ex_env_good "''1.0''" "''baz-1.0.json''" ex_mod_baz_unnamed st]
    d(1) v(1)
  have a: "processModFile ex_env_good ''1.0'' (''baz-1.0.json'', ex_mod_baz_unnamed) st
        = Inl (Exit 1 ''Mod name not set'', st)"
    and c: "\<And>vs1 pre rest vs2 s0 s1. combine ex_env_good vs1 s0 = Inr s1 \<Longrightarrow>
        processMods ex_env_good ''1.0'' pre
          (s1\<lparr>allMods := (allMods s1)(''1.0'' \<mapsto> modsOf s1 ''1.0'')\<rparr>) = Inr st \<Longrightarrow>
        combine ex_env_good
          (vs1 @ (''1.0'', pre @ (''baz-1.0.json'', ex_mod_baz_unnamed) # rest) # vs2) s0
          = Inl (Exit 1 ''Mod name not set'', st)"
    by auto
  have 1: "combine ex_env_good
             [(''1.0'', [(''foo-1.0.json'', ex_mod), (''baz-1.0.json'', ex_mod_baz_unnamed)]),
              (''1.1'', [(''baz-1.0.json'', ex_mod_baz)])] ex_world
            = Inl (Exit 1 ''Mod name not set'', st)"
    using c [of "[]" ex_world ex_world "[(''foo-1.0.json'', ex_mod)]" "[]"
        "[(''1.1'', [(''baz-1.0.json'', ex_mod_baz)])]"] p
    by (simp add: i)
  have 2: "callsOf (processQmod ex_env_good ex_mod_baz_unnamed ''1.0'' ex_world_init)
        = [DownloadFile ''w'' ''/r/qmods/1.0/baz-1.0.qmod'',
           LoadArchive ''/r/qmods/1.0/baz-1.0.qmod'']"
    by code_simp
  from fatal_validation [of ex_env "''1.0''" "''foo.json''" ex_mod ex_world] d(2) v(2)
  have 4: "processModFile ex_env ''1.0'' (''foo.json'', ex_mod) ex_world
       = Inl (Exit 1 (''Mod filename is not what it should be.  mods/1.0/foo.json'' @
                      '' should be mods/1.0/foo-1.0.json''), ex_world)"
    by auto
  from fatal_validation [of ex_env "''1.0''" "''foo-1.0.json''" ex_mod_badloader ex_world]
    d(3) v(3)
  have 5: "processModFile ex_env ''1.0'' (''foo-1.0.json'', ex_mod_badloader) ex_world
       = Inl (Exit 1 ''Mod loader is invalid'', ex_world)"
    by auto
  from fatal_validation [of ex_env "''1.0''" "''foo-1.0.json''" ex_mod ex_world] n
  have 6: "\<exists>st1. processModFile ex_env ''1.0'' (''foo-1.0.json'', ex_mod) ex_world = Inr st1"
    by blast
  from d p t a 1 2 4 5 n 6 show ?thesis
    by blast
qed

text \<open>
  C10 (no throw). When id, version and download of the mod are not blank, as the catalog
  loop has checked before it calls, none of the four \<^verbatim>\<open>throw\<close> statements of
  \<^verbatim>\<open>processQmod\<close> is reached: the function returns an outcome.
\<close>

theorem processQmod_never_throws:
  assumes "\<not> isNullOrWhitespace (m ''id'')" "\<not> isNullOrWhitespace (m ''version'')"
    and "\<not> isNullOrWhitespace (m ''download'')"
  shows "\<exists>res m1 st1. processQmod e m gameVersion st = Inr (res, m1, st1)"
  using assms by (intro processQmod_returns nonblank_truthy)

theorem processQmod_never_throws_witness:
  "\<not> isNullOrWhitespace (ex_mod ''id'') \<and> \<not> isNullOrWhitespace (ex_mod ''version'')
   \<and> \<not> isNullOrWhitespace (ex_mod ''download'')
   \<and> (\<exists>res m1 st1. processQmod ex_env ex_mod ''1.0'' ex_world = Inr (res, m1, st1))"
  using processQmod_never_throws [of ex_mod ex_env "''1.0''" ex_world]
  by (simp add: ex_mod_def str_defs)

end
